theory Spec2Isabelle
  imports Main "HOL-Library.Sublist"
begin

section \<open>Python values and dictionaries\<close>

text \<open>
  The resource handed to an action and the policy data of an action are Python
  dictionaries with string keys. Their values are the values a decoded JSON or YAML
  document holds: \<open>None\<close>, booleans, integers, strings and lists. Floats and nested
  dictionaries are left out: the code compares only against string and integer literals.
\<close>

datatype pyval =
    PNone
  | PBool bool
  | PInt int
  | PStr string
  | PList "pyval list"

type_synonym pydict = "string \<rightharpoonup> pyval"

text \<open>
  The exceptions of the model: the two the interpreter itself raises in this file
  (\<open>d[k]\<close> on a missing key, hashing or iterating a value that cannot be), and whatever
  the SDK client raises, of a type \<open>'e\<close> this file knows nothing about.
\<close>

datatype 'e exc =
    KeyError string
  | TypeError
  | ClientError 'e

text \<open>What a method returns: \<open>0\<close>, the SDK's response, or \<open>None\<close> when it falls off its end.\<close>

datatype 'r retval =
    RInt int
  | RResp 'r
  | RNone

datatype ('e, 'r) outcome =
    Return "'r retval"
  | Raise "'e exc"

text \<open>\<open>d[k]\<close>: raises KeyError on a missing key.\<close>

definition py_getitem :: "pydict \<Rightarrow> string \<Rightarrow> 'e exc + pyval" where
  "py_getitem d k = (case d k of None \<Rightarrow> Inl (KeyError k) | Some v \<Rightarrow> Inr v)"

text \<open>\<open>d.get(k, default)\<close>.\<close>

definition py_get :: "pydict \<Rightarrow> string \<Rightarrow> pyval \<Rightarrow> pyval" where
  "py_get d k dflt = (case d k of None \<Rightarrow> dflt | Some v \<Rightarrow> v)"

text \<open>\<open>v == "s"\<close> for a string literal: only a string equals a string.\<close>

fun py_eq_str :: "pyval \<Rightarrow> string \<Rightarrow> bool" where
  "py_eq_str (PStr t) s = (t = s)"
| "py_eq_str _ s = False"

text \<open>
  \<open>v == n\<close> for an integer literal: an integer equals it by value, and a boolean is the
  integer 0 or 1 (\<open>False == 0\<close> is true in Python).
\<close>

fun py_eq_int :: "pyval \<Rightarrow> int \<Rightarrow> bool" where
  "py_eq_int (PInt i) n = (i = n)"
| "py_eq_int (PBool b) n = ((if b then 1 else 0) = n)"
| "py_eq_int _ n = False"

text \<open>
  \<open>v in S\<close> for a set \<open>S\<close> of strings: the value is hashed first, which raises TypeError
  for a list; a hashable value that is not a string equals no member.
\<close>

fun py_in_strset :: "pyval \<Rightarrow> string set \<Rightarrow> 'e exc + bool" where
  "py_in_strset (PList xs) S = Inl TypeError"
| "py_in_strset (PStr s) S = Inr (s \<in> S)"
| "py_in_strset _ S = Inr False"

text \<open>
  \<open>for x in v\<close>: a list yields its elements, a string its one-character strings, and
  anything else is not iterable.
\<close>

fun py_iter :: "pyval \<Rightarrow> 'e exc + pyval list" where
  "py_iter (PList xs) = Inr xs"
| "py_iter (PStr s) = Inr (map (\<lambda>c. PStr [c]) s)"
| "py_iter _ = Inl TypeError"

section \<open>The SDK: requests, client and the world an action runs in\<close>

record operate_body =
  key_id :: pyval
  sequence :: string

record create_body =
  key_alias :: pyval

record list_body =
  key_spec :: string
  limit :: string

datatype request =
    EnableKeyRotationRequest operate_body
  | DisableKeyRotationRequest operate_body
  | EnableKeyRequest operate_body
  | DisableKeyRequest operate_body
  | CreateKeyRequest create_body
  | ListKeysRequest list_body

text \<open>
  The list-keys response, as far as \<open>createKey.process\<close> reads it: the aliases of its
  \<open>key_details\<close>, in order.
\<close>

record key_detail =
  kd_key_alias :: string

record list_response =
  key_details :: "key_detail list"

text \<open>
  The client returned by \<open>self.manager.get_client()\<close>. Each method takes the request and
  the state \<open>'s\<close> of the service behind it, and either raises (\<open>Inl\<close>) or answers
  (\<open>Inr\<close>); both may change the service's state.
\<close>

record ('s, 'e, 'r) client =
  enable_key_rotation :: "request \<Rightarrow> 's \<Rightarrow> ('e + 'r) \<times> 's"
  disable_key_rotation :: "request \<Rightarrow> 's \<Rightarrow> ('e + 'r) \<times> 's"
  enable_key :: "request \<Rightarrow> 's \<Rightarrow> ('e + 'r) \<times> 's"
  disable_key :: "request \<Rightarrow> 's \<Rightarrow> ('e + 'r) \<times> 's"
  create_key :: "request \<Rightarrow> 's \<Rightarrow> ('e + 'r) \<times> 's"
  list_keys :: "request \<Rightarrow> 's \<Rightarrow> ('e + list_response) \<times> 's"

text \<open>
  What an action does that the outside can see, in the order it happens: an SDK call,
  with the exception it raised, if any; and a line written by \<open>print\<close>.
\<close>

datatype ('e, 'r) event =
    Called request "'e option"
  | Printed 'r

text \<open>
  Everything an action can read or change:
  \<^item> \<open>store\<close>: the dictionaries alive in the interpreter, by address; a resource is passed
    to an action by its address, as Python passes the reference;
  \<^item> \<open>cloud\<close>: the state of the service behind the client;
  \<^item> \<open>uuid_ctr\<close>: how many identifiers \<open>uuid.uuid4()\<close> has handed out;
  \<^item> \<open>log\<close>: the events so far, oldest first.
\<close>

record ('s, 'e, 'r) world =
  store :: "nat \<Rightarrow> pydict"
  cloud :: "'s"
  uuid_ctr :: nat
  log :: "('e, 'r) event list"

text \<open>One SDK call: the service answers, and the call is logged.\<close>

definition sdk_call ::
  "(request \<Rightarrow> 's \<Rightarrow> ('e + 'a) \<times> 's) \<Rightarrow> request \<Rightarrow> ('s, 'e, 'r) world
     \<Rightarrow> ('e + 'a) \<times> ('s, 'e, 'r) world" where
  "sdk_call f req w =
     (case f req (cloud w) of
        (res, c) \<Rightarrow>
          (res, w\<lparr>cloud := c,
                  log := log w @ [Called req (case res of Inl e \<Rightarrow> Some e | Inr _ \<Rightarrow> None)]\<rparr>))"

text \<open>\<open>print(x)\<close>.\<close>

definition py_print :: "'r \<Rightarrow> ('s, 'e, 'r) world \<Rightarrow> ('s, 'e, 'r) world" where
  "py_print x w = w\<lparr>log := log w @ [Printed x]\<rparr>"

text \<open>
  \<open>uuid.uuid4().hex\<close>: the next identifier of the generator \<open>gen\<close>, which is then used
  up.
\<close>

definition uuid4_hex ::
  "(nat \<Rightarrow> string) \<Rightarrow> ('s, 'e, 'r) world \<Rightarrow> string \<times> ('s, 'e, 'r) world" where
  "uuid4_hex gen w = (gen (uuid_ctr w), w\<lparr>uuid_ctr := Suc (uuid_ctr w)\<rparr>)"

text \<open>
  \<open>try: response = call(request) / except Exception as e: raise e / return response\<close>,
  the tail of the four key actions.
\<close>

definition call_and_return ::
  "(request \<Rightarrow> 's \<Rightarrow> ('e + 'r) \<times> 's) \<Rightarrow> request \<Rightarrow> ('s, 'e, 'r) world
     \<Rightarrow> ('e, 'r) outcome \<times> ('s, 'e, 'r) world" where
  "call_and_return f req w =
     (case sdk_call f req w of
        (Inl e, w') \<Rightarrow> (Raise (ClientError e), w')
      | (Inr response, w') \<Rightarrow> (Return (RResp response), w'))"

text \<open>
  \<open>OperateKeyRequestBody(key_id=resource["key_id"], sequence=uuid.uuid4().hex)\<close>: the
  key is read first, so a missing key raises before an identifier is drawn.
\<close>

definition operate_key_request_body ::
  "(nat \<Rightarrow> string) \<Rightarrow> pydict \<Rightarrow> ('s, 'e, 'r) world
     \<Rightarrow> ('e exc + operate_body) \<times> ('s, 'e, 'r) world" where
  "operate_key_request_body gen resource w =
     (case py_getitem resource ''key_id'' of
        Inl x \<Rightarrow> (Inl x, w)
      | Inr k \<Rightarrow>
          (let (u, w') = uuid4_hex gen w
           in (Inr \<lparr>key_id = k, sequence = u\<rparr>, w')))"

section \<open>The actions\<close>

definition notSupportList :: "string set" where
  "notSupportList = {''RSA_2048'', ''RSA_3072'', ''RSA_4096'', ''EC_P256'', ''EC_P384'',
                     ''SM2'', ''ML_DSA_44'', ''ML_DSA_65'', ''ML_DSA_87''}"

text \<open>\<open>rotationKey.perform_action\<close>, registered as \<open>enable_key_rotation\<close>.\<close>

definition rotationKey_perform_action ::
  "('s, 'e, 'r) client \<Rightarrow> (nat \<Rightarrow> string) \<Rightarrow> nat \<Rightarrow> ('s, 'e, 'r) world
     \<Rightarrow> ('e, 'r) outcome \<times> ('s, 'e, 'r) world" where
  "rotationKey_perform_action cl gen a w =
     (let resource = store w a in
      (case py_getitem resource ''default_key_flag'' of
        Inl x \<Rightarrow> (Raise x, w)
      | Inr flag \<Rightarrow>
      if py_eq_str flag ''1'' then (Return (RInt 0), w) else
      (case py_getitem resource ''key_spec'' of
        Inl x \<Rightarrow> (Raise x, w)
      | Inr spec \<Rightarrow>
      (case py_in_strset spec notSupportList of
        Inl x \<Rightarrow> (Raise x, w)
      | Inr True \<Rightarrow> (Return (RInt 0), w)
      | Inr False \<Rightarrow>
      (case py_getitem resource ''keystore_id'' of
        Inl x \<Rightarrow> (Raise x, w)
      | Inr ks \<Rightarrow>
      if \<not> py_eq_int ks 0 then (Return (RInt 0), w) else
      (case py_getitem resource ''key_state'' of
        Inl x \<Rightarrow> (Raise x, w)
      | Inr st \<Rightarrow>
      (case py_in_strset st {''2'', ''3'', ''4''} of
        Inl x \<Rightarrow> (Raise x, w)
      | Inr False \<Rightarrow> (Return (RInt 0), w)
      | Inr True \<Rightarrow>
      (case operate_key_request_body gen resource w of
        (Inl x, w') \<Rightarrow> (Raise x, w')
      | (Inr body, w') \<Rightarrow>
          call_and_return (enable_key_rotation cl) (EnableKeyRotationRequest body) w'))))))))"

text \<open>\<open>disableRotationKey.perform_action\<close>, registered as \<open>disable_key_rotation\<close>.\<close>

definition disableRotationKey_perform_action ::
  "('s, 'e, 'r) client \<Rightarrow> (nat \<Rightarrow> string) \<Rightarrow> nat \<Rightarrow> ('s, 'e, 'r) world
     \<Rightarrow> ('e, 'r) outcome \<times> ('s, 'e, 'r) world" where
  "disableRotationKey_perform_action cl gen a w =
     (let resource = store w a in
      (case py_getitem resource ''default_key_flag'' of
        Inl x \<Rightarrow> (Raise x, w)
      | Inr flag \<Rightarrow>
      if py_eq_str flag ''1'' then (Return (RInt 0), w) else
      (case py_getitem resource ''key_spec'' of
        Inl x \<Rightarrow> (Raise x, w)
      | Inr spec \<Rightarrow>
      (case py_in_strset spec notSupportList of
        Inl x \<Rightarrow> (Raise x, w)
      | Inr True \<Rightarrow> (Return (RInt 0), w)
      | Inr False \<Rightarrow>
      (case py_getitem resource ''keystore_id'' of
        Inl x \<Rightarrow> (Raise x, w)
      | Inr ks \<Rightarrow>
      if \<not> py_eq_int ks 0 then (Return (RInt 0), w) else
      (case py_getitem resource ''key_state'' of
        Inl x \<Rightarrow> (Raise x, w)
      | Inr st \<Rightarrow>
      (case py_in_strset st {''2'', ''3'', ''4''} of
        Inl x \<Rightarrow> (Raise x, w)
      | Inr False \<Rightarrow> (Return (RInt 0), w)
      | Inr True \<Rightarrow>
      (case operate_key_request_body gen resource w of
        (Inl x, w') \<Rightarrow> (Raise x, w')
      | (Inr body, w') \<Rightarrow>
          call_and_return (disable_key_rotation cl) (DisableKeyRotationRequest body) w'))))))))"

text \<open>\<open>enableKey.perform_action\<close>, registered as \<open>enable_key\<close>: no check before the request.\<close>

definition enableKey_perform_action ::
  "('s, 'e, 'r) client \<Rightarrow> (nat \<Rightarrow> string) \<Rightarrow> nat \<Rightarrow> ('s, 'e, 'r) world
     \<Rightarrow> ('e, 'r) outcome \<times> ('s, 'e, 'r) world" where
  "enableKey_perform_action cl gen a w =
     (let resource = store w a in
      (case operate_key_request_body gen resource w of
        (Inl x, w') \<Rightarrow> (Raise x, w')
      | (Inr body, w') \<Rightarrow>
          call_and_return (enable_key cl) (EnableKeyRequest body) w'))"

text \<open>\<open>disableKey.perform_action\<close>, registered as \<open>disable_key\<close>.\<close>

definition disableKey_perform_action ::
  "('s, 'e, 'r) client \<Rightarrow> (nat \<Rightarrow> string) \<Rightarrow> nat \<Rightarrow> ('s, 'e, 'r) world
     \<Rightarrow> ('e, 'r) outcome \<times> ('s, 'e, 'r) world" where
  "disableKey_perform_action cl gen a w =
     (let resource = store w a in
      (case operate_key_request_body gen resource w of
        (Inl x, w') \<Rightarrow> (Raise x, w')
      | (Inr body, w') \<Rightarrow>
          call_and_return (disable_key cl) (DisableKeyRequest body) w'))"

text \<open>
  The second loop of \<open>createKey.process\<close>: \<open>for alias in key_aliases\<close>, with \<open>arr\<close> the
  set built by the first loop. The response of a successful \<open>create_key\<close> is printed; an
  exception leaves the loop and the method.
\<close>

fun create_loop ::
  "('s, 'e, 'r) client \<Rightarrow> string set \<Rightarrow> pyval list \<Rightarrow> ('s, 'e, 'r) world
     \<Rightarrow> ('e, 'r) outcome \<times> ('s, 'e, 'r) world" where
  "create_loop cl arr [] w = (Return RNone, w)"
| "create_loop cl arr (alias # rest) w =
     (case py_in_strset alias arr of
        Inl x \<Rightarrow> (Raise x, w)
      | Inr True \<Rightarrow> create_loop cl arr rest w
      | Inr False \<Rightarrow>
          (case sdk_call (create_key cl) (CreateKeyRequest \<lparr>key_alias = alias\<rparr>) w of
             (Inl e, w') \<Rightarrow> (Raise (ClientError e), w')
           | (Inr response, w') \<Rightarrow>
               create_loop cl arr rest (py_print response w')))"

text \<open>
  \<open>createKey.process\<close>, registered as \<open>create-key\<close>. \<open>data\<close> is the policy's dictionary for
  this action (\<open>self.data\<close>); the argument \<open>resource\<close> is not read. The list-keys call
  stands outside any \<open>try\<close>, so its exception leaves the method as it is.
\<close>

definition createKey_process ::
  "('s, 'e, 'r) client \<Rightarrow> pydict \<Rightarrow> nat \<Rightarrow> ('s, 'e, 'r) world
     \<Rightarrow> ('e, 'r) outcome \<times> ('s, 'e, 'r) world" where
  "createKey_process cl data resource w =
     (let key_aliases = py_get data ''key_aliases'' (PList []);
          request = ListKeysRequest \<lparr>key_spec = ''ALL'', limit = ''1000''\<rparr>
      in (case sdk_call (list_keys cl) request w of
            (Inl e, w') \<Rightarrow> (Raise (ClientError e), w')
          | (Inr listKeyResponse, w') \<Rightarrow>
              (let arr = foldl (\<lambda>arr d. insert (kd_key_alias d) arr) {''default''}
                           (key_details listKeyResponse)
               in (case py_iter key_aliases of
                     Inl x \<Rightarrow> (Raise x, w')
                   | Inr aliases \<Rightarrow> create_loop cl arr aliases w'))))"

text \<open>
  The five actions by name. Four implement \<open>perform_action\<close>, which the base class runs
  on one resource; \<open>create-key\<close> overrides \<open>process\<close> itself.
\<close>

datatype key_action = RotationKey | DisableRotationKey | EnableKey | DisableKey

datatype action = PerKey key_action | CreateKey

fun perform_action ::
  "key_action \<Rightarrow> ('s, 'e, 'r) client \<Rightarrow> (nat \<Rightarrow> string) \<Rightarrow> nat
     \<Rightarrow> ('s, 'e, 'r) world \<Rightarrow> ('e, 'r) outcome \<times> ('s, 'e, 'r) world" where
  "perform_action RotationKey = rotationKey_perform_action"
| "perform_action DisableRotationKey = disableRotationKey_perform_action"
| "perform_action EnableKey = enableKey_perform_action"
| "perform_action DisableKey = disableKey_perform_action"

fun run_action ::
  "action \<Rightarrow> ('s, 'e, 'r) client \<Rightarrow> (nat \<Rightarrow> string) \<Rightarrow> pydict \<Rightarrow> nat
     \<Rightarrow> ('s, 'e, 'r) world \<Rightarrow> ('e, 'r) outcome \<times> ('s, 'e, 'r) world" where
  "run_action (PerKey k) cl gen data a w = perform_action k cl gen a w"
| "run_action CreateKey cl gen data a w = createKey_process cl data a w"

text \<open>The events an action added to the log, and the SDK calls among events.\<close>

definition new_events ::
  "('s, 'e, 'r) world \<Rightarrow> ('s, 'e, 'r) world \<Rightarrow> ('e, 'r) event list" where
  "new_events w w' = drop (length (log w)) (log w')"

fun calls_of :: "('e, 'r) event list \<Rightarrow> request list" where
  "calls_of [] = []"
| "calls_of (Called req x # es) = req # calls_of es"
| "calls_of (Printed r # es) = calls_of es"


fun is_list_keys :: "request \<Rightarrow> bool" where
  "is_list_keys (ListKeysRequest b) = True"
| "is_list_keys _ = False"

fun is_create_key :: "request \<Rightarrow> bool" where
  "is_create_key (CreateKeyRequest b) = True"
| "is_create_key _ = False"

fun raised :: "('e, 'r) event \<Rightarrow> bool" where
  "raised (Called req (Some e)) = True"
| "raised _ = False"

section \<open>The registrations of the module\<close>

text \<open>
  The decorators and \<open>schema\<close> attributes of the module, as data. A registration names
  the registry, the name and the class; a schema is the call of \<open>type_schema\<close> as the
  class writes it: the type name, the keyword properties with their JSON type, and the
  schema it inherits from, if any.
\<close>

datatype registry = Resources | Kms_action_registry | Kms_filter_registry

datatype plugin = Kms | Action action | InstanceDisable

datatype json_type = JArray | JString

record schema_call =
  type_name :: string
  properties :: "(string \<times> json_type) list"
  rinherit :: "string option"

definition module_registrations :: "(registry \<times> string \<times> plugin) list" where
  "module_registrations =
     [(Resources, ''kms'', Kms),
      (Kms_action_registry, ''enable_key_rotation'', Action (PerKey RotationKey)),
      (Kms_action_registry, ''disable_key_rotation'', Action (PerKey DisableRotationKey)),
      (Kms_action_registry, ''enable_key'', Action (PerKey EnableKey)),
      (Kms_action_registry, ''disable_key'', Action (PerKey DisableKey)),
      (Kms_action_registry, ''create-key'', Action CreateKey),
      (Kms_filter_registry, ''all_keys_disable'', InstanceDisable)]"

fun schema :: "plugin \<Rightarrow> schema_call option" where
  "schema Kms = None"
| "schema (Action (PerKey RotationKey)) =
     Some \<lparr>type_name = ''enable_key_rotation'', properties = [], rinherit = None\<rparr>"
| "schema (Action (PerKey DisableRotationKey)) =
     Some \<lparr>type_name = ''disable_key_rotation'', properties = [], rinherit = None\<rparr>"
| "schema (Action (PerKey EnableKey)) =
     Some \<lparr>type_name = ''enable_key'', properties = [], rinherit = None\<rparr>"
| "schema (Action (PerKey DisableKey)) =
     Some \<lparr>type_name = ''disable_key'', properties = [], rinherit = None\<rparr>"
| "schema (Action CreateKey) =
     Some \<lparr>type_name = ''create-key'',
           properties = [(''key_aliases'', JArray), (''obs_url'', JString)],
           rinherit = None\<rparr>"
| "schema InstanceDisable =
     Some \<lparr>type_name = ''all_keys_disable'', properties = [],
           rinherit = Some ''ValueFilter.schema''\<rparr>"

text \<open>
  Modelled from the spec: the registries of the host framework are not part of this file.
  Registering attaches a class to a name in a registry; loading the module runs its
  registrations in source order on the registries it finds.
\<close>

definition register ::
  "registry \<Rightarrow> string \<Rightarrow> plugin \<Rightarrow> (registry \<times> string \<rightharpoonup> plugin)
     \<Rightarrow> (registry \<times> string \<rightharpoonup> plugin)" where
  "register r name p regs = regs((r, name) \<mapsto> p)"

definition load_module :: "(registry \<times> string \<rightharpoonup> plugin) \<Rightarrow> (registry \<times> string \<rightharpoonup> plugin)" where
  "load_module regs = foldl (\<lambda>m (r, name, p). register r name p m) regs module_registrations"

text \<open>The names the module registers in a registry, in source order.\<close>

definition registered_names :: "registry \<Rightarrow> string list" where
  "registered_names r = map (fst \<circ> snd) (filter (\<lambda>reg. fst reg = r) module_registrations)"

section \<open>The specification's notions\<close>

text \<open>
  A value that can be a member of a set: anything but a list. A record has its gate
  fields when the four fields the eligibility checks read are present, with values of
  \<open>key_spec\<close> and \<open>key_state\<close> that can be looked up in a set.
\<close>

fun hashable :: "pyval \<Rightarrow> bool" where
  "hashable (PList xs) = False"
| "hashable _ = True"

definition has_gate_fields :: "pydict \<Rightarrow> bool" where
  "has_gate_fields d =
     (d ''default_key_flag'' \<noteq> None \<and>
      (case d ''key_spec'' of None \<Rightarrow> False | Some v \<Rightarrow> hashable v) \<and>
      d ''keystore_id'' \<noteq> None \<and>
      (case d ''key_state'' of None \<Rightarrow> False | Some v \<Rightarrow> hashable v))"

text \<open>
  The eligibility of a record in the specification's words: the default-key flag is not
  \<open>"1"\<close>, the key spec is none of the nine unsupported ones, the keystore id equals 0
  (as Python compares: the integer 0 or \<open>False\<close>), and the key state is one of \<open>"2"\<close>,
  \<open>"3"\<close>, \<open>"4"\<close>.
\<close>

definition unsupported_key_specs :: "string list" where
  "unsupported_key_specs =
     [''RSA_2048'', ''RSA_3072'', ''RSA_4096'', ''EC_P256'', ''EC_P384'', ''SM2'',
      ''ML_DSA_44'', ''ML_DSA_65'', ''ML_DSA_87'']"

definition eligible_spec :: "pydict \<Rightarrow> bool" where
  "eligible_spec d =
     (d ''default_key_flag'' \<noteq> Some (PStr ''1'') \<and>
      d ''key_spec'' \<notin> set (map (Some \<circ> PStr) unsupported_key_specs) \<and>
      d ''keystore_id'' \<in> {Some (PInt 0), Some (PBool False)} \<and>
      d ''key_state'' \<in> {Some (PStr ''2''), Some (PStr ''3''), Some (PStr ''4'')})"

text \<open>The request class and the client method of each of the four key actions.\<close>

fun request_of :: "key_action \<Rightarrow> operate_body \<Rightarrow> request" where
  "request_of RotationKey = EnableKeyRotationRequest"
| "request_of DisableRotationKey = DisableKeyRotationRequest"
| "request_of EnableKey = EnableKeyRequest"
| "request_of DisableKey = DisableKeyRequest"

fun method_of ::
  "key_action \<Rightarrow> ('s, 'e, 'r) client \<Rightarrow> request \<Rightarrow> 's \<Rightarrow> ('e + 'r) \<times> 's" where
  "method_of RotationKey = enable_key_rotation"
| "method_of DisableRotationKey = disable_key_rotation"
| "method_of EnableKey = enable_key"
| "method_of DisableKey = disable_key"

fun gated :: "key_action \<Rightarrow> bool" where
  "gated RotationKey = True"
| "gated DisableRotationKey = True"
| "gated EnableKey = False"
| "gated DisableKey = False"

text \<open>
  What issuing the request of a key action comes to, in one expression: with no \<open>key_id\<close>
  in the record the method raises KeyError and nothing else happens; otherwise one
  identifier is drawn, one request with the key and the identifier is sent by the
  action's method, and the answer of the service is returned, or its exception raised.
\<close>

definition issue_request ::
  "key_action \<Rightarrow> ('s, 'e, 'r) client \<Rightarrow> (nat \<Rightarrow> string) \<Rightarrow> pydict \<Rightarrow> ('s, 'e, 'r) world
     \<Rightarrow> ('e, 'r) outcome \<times> ('s, 'e, 'r) world" where
  "issue_request k cl gen d w =
     (case d ''key_id'' of
        None \<Rightarrow> (Raise (KeyError ''key_id''), w)
      | Some kid \<Rightarrow>
          (let req = request_of k \<lparr>key_id = kid, sequence = gen (uuid_ctr w)\<rparr>;
               answer = method_of k cl req (cloud w)
           in (case fst answer of
                 Inl e \<Rightarrow> Raise (ClientError e)
               | Inr r \<Rightarrow> Return (RResp r),
               w\<lparr>cloud := snd answer,
                 uuid_ctr := Suc (uuid_ctr w),
                 log := log w @ [Called req (case fst answer of Inl e \<Rightarrow> Some e | Inr _ \<Rightarrow> None)]\<rparr>)))"

text \<open>
  The aliases \<open>create-key\<close> is to create, in the specification's words: the elements of
  \<open>key_aliases\<close>, in order, that are neither \<open>"default"\<close> nor an alias of the list-keys
  response.
\<close>

definition aliases_to_create :: "pyval list \<Rightarrow> key_detail list \<Rightarrow> pyval list" where
  "aliases_to_create aliases details =
     filter (\<lambda>alias. alias \<noteq> PStr ''default'' \<and> alias \<notin> set (map (PStr \<circ> kd_key_alias) details))
       aliases"

text \<open>
  What \<open>create-key\<close> does with the aliases it is to create, in the specification's words:
  for each alias in turn it builds a create-key request whose body holds that alias and
  nothing else, sends it, and prints the response; an exception of the service ends the
  run and is its outcome; with no alias left the run returns \<open>None\<close>. The result is the
  outcome, the state of the service, and the events in order.
\<close>

fun create_run ::
  "('s, 'e, 'r) client \<Rightarrow> pyval list \<Rightarrow> 's \<Rightarrow> ('e, 'r) outcome \<times> 's \<times> ('e, 'r) event list" where
  "create_run cl [] c = (Return RNone, c, [])"
| "create_run cl (alias # rest) c =
     (case create_key cl (CreateKeyRequest \<lparr>key_alias = alias\<rparr>) c of
        (Inl e, c') \<Rightarrow>
          (Raise (ClientError e), c', [Called (CreateKeyRequest \<lparr>key_alias = alias\<rparr>) (Some e)])
      | (Inr response, c') \<Rightarrow>
          (case create_run cl rest c' of
             (out, c'', es) \<Rightarrow>
               (out, c'',
                Called (CreateKeyRequest \<lparr>key_alias = alias\<rparr>) None # Printed response # es)))"

text \<open>
  The four inline checks of the two rotation actions, with what follows them as a
  parameter: the checks end the method (with 0, or with the exception of a failed read)
  or hand over to \<open>rest\<close>.
\<close>

definition inline_checks ::
  "pydict \<Rightarrow> 'w \<Rightarrow> ('e, 'r) outcome \<times> 'w \<Rightarrow> ('e, 'r) outcome \<times> 'w" where
  "inline_checks resource w rest =
      (case py_getitem resource ''default_key_flag'' of
        Inl x \<Rightarrow> (Raise x, w)
      | Inr flag \<Rightarrow>
      if py_eq_str flag ''1'' then (Return (RInt 0), w) else
      (case py_getitem resource ''key_spec'' of
        Inl x \<Rightarrow> (Raise x, w)
      | Inr spec \<Rightarrow>
      (case py_in_strset spec notSupportList of
        Inl x \<Rightarrow> (Raise x, w)
      | Inr True \<Rightarrow> (Return (RInt 0), w)
      | Inr False \<Rightarrow>
      (case py_getitem resource ''keystore_id'' of
        Inl x \<Rightarrow> (Raise x, w)
      | Inr ks \<Rightarrow>
      if \<not> py_eq_int ks 0 then (Return (RInt 0), w) else
      (case py_getitem resource ''key_state'' of
        Inl x \<Rightarrow> (Raise x, w)
      | Inr st \<Rightarrow>
      (case py_in_strset st {''2'', ''3'', ''4''} of
        Inl x \<Rightarrow> (Raise x, w)
      | Inr False \<Rightarrow> (Return (RInt 0), w)
      | Inr True \<Rightarrow> rest))))))"

section \<open>Worlds and clients to run the actions on\<close>

text \<open>
  A service that counts the requests it has answered. The first client answers every
  request; the second raises on every request but list-keys; the third raises on
  list-keys.
\<close>

definition listed :: list_response where
  "listed = \<lparr>key_details = [\<lparr>kd_key_alias = ''prod''\<rparr>]\<rparr>"

definition good_client :: "(nat, string, string) client" where
  "good_client =
     \<lparr>enable_key_rotation = (\<lambda>req n. (Inr ''rotation on'', Suc n)),
      disable_key_rotation = (\<lambda>req n. (Inr ''rotation off'', Suc n)),
      enable_key = (\<lambda>req n. (Inr ''enabled'', Suc n)),
      disable_key = (\<lambda>req n. (Inr ''disabled'', Suc n)),
      create_key = (\<lambda>req n. (Inr ''created'', Suc n)),
      list_keys = (\<lambda>req n. (Inr listed, Suc n))\<rparr>"

definition bad_client :: "(nat, string, string) client" where
  "bad_client =
     \<lparr>enable_key_rotation = (\<lambda>req n. (Inl ''KMS.0001'', Suc n)),
      disable_key_rotation = (\<lambda>req n. (Inl ''KMS.0002'', Suc n)),
      enable_key = (\<lambda>req n. (Inl ''KMS.0003'', Suc n)),
      disable_key = (\<lambda>req n. (Inl ''KMS.0004'', Suc n)),
      create_key = (\<lambda>req n. (Inl ''KMS.0005'', Suc n)),
      list_keys = (\<lambda>req n. (Inr listed, Suc n))\<rparr>"

definition down_client :: "(nat, string, string) client" where
  "down_client = good_client\<lparr>list_keys := (\<lambda>req n. (Inl ''KMS.0006'', Suc n))\<rparr>"

definition gen0 :: "nat \<Rightarrow> string" where
  "gen0 n = replicate (Suc n) CHR ''a''"

definition world_of :: "pydict \<Rightarrow> (nat, string, string) world" where
  "world_of d = \<lparr>store = (\<lambda>a. d), cloud = 0, uuid_ctr = 0, log = []\<rparr>"

text \<open>An eligible key and a default key.\<close>

definition plain_key :: pydict where
  "plain_key =
     [''key_id'' \<mapsto> PStr ''k-1'', ''default_key_flag'' \<mapsto> PStr ''0'',
      ''key_spec'' \<mapsto> PStr ''AES_256'', ''keystore_id'' \<mapsto> PInt 0,
      ''key_state'' \<mapsto> PStr ''2'']"

definition default_key :: pydict where
  "default_key =
     [''key_id'' \<mapsto> PStr ''k-2'', ''default_key_flag'' \<mapsto> PStr ''1'',
      ''key_spec'' \<mapsto> PStr ''AES_256'', ''keystore_id'' \<mapsto> PInt 0,
      ''key_state'' \<mapsto> PStr ''2'']"

text \<open>
  A policy that asks for the alias \<open>bbb\<close> twice, next to one that exists and to
  \<open>default\<close>; and the same policy with an \<open>obs_url\<close>.
\<close>

definition twice_policy :: pydict where
  "twice_policy =
     [''key_aliases'' \<mapsto> PList [PStr ''bbb'', PStr ''prod'', PStr ''default'', PStr ''bbb'']]"

definition twice_policy_obs :: pydict where
  "twice_policy_obs = twice_policy(''obs_url'' \<mapsto> PStr ''obs://bucket/keys'')"

section \<open>Lemmas: Python primitives\<close>

lemma py_eq_str_iff: "py_eq_str v s \<longleftrightarrow> v = PStr s"
  by (cases v) auto

lemma py_eq_int_0_iff: "py_eq_int v 0 \<longleftrightarrow> v = PInt 0 \<or> v = PBool False"
  by (cases v) auto

lemma py_in_strset_Inr: "py_in_strset v S = Inr b \<longleftrightarrow> hashable v \<and> b = (v \<in> PStr ` S)"
  by (cases v) auto

lemma py_in_strset_Inl: "py_in_strset v S = Inl x \<longleftrightarrow> \<not> hashable v \<and> x = TypeError"
  by (cases v) auto

lemma unsupported_set:
  "PStr ` notSupportList = {v. Some v \<in> set (map (Some \<circ> PStr) unsupported_key_specs)}"
  by (auto simp add: notSupportList_def unsupported_key_specs_def)

section \<open>Lemmas: the four key actions\<close>

lemma sdk_call_effect:
  "sdk_call f req w =
     (fst (f req (cloud w)),
      w\<lparr>cloud := snd (f req (cloud w)),
        log := log w @ [Called req (case fst (f req (cloud w)) of Inl e \<Rightarrow> Some e | Inr _ \<Rightarrow> None)]\<rparr>)"
  by (simp add: sdk_call_def split: prod.splits)

lemma operate_tail:
  "(case operate_key_request_body gen d w of
      (Inl x, w') \<Rightarrow> (Raise x, w')
    | (Inr body, w') \<Rightarrow> call_and_return f (mk body) w') =
   (case d ''key_id'' of
      None \<Rightarrow> (Raise (KeyError ''key_id''), w)
    | Some kid \<Rightarrow>
        (case fst (f (mk \<lparr>key_id = kid, sequence = gen (uuid_ctr w)\<rparr>) (cloud w)) of
           Inl e \<Rightarrow> Raise (ClientError e)
         | Inr r \<Rightarrow> Return (RResp r),
         w\<lparr>cloud := snd (f (mk \<lparr>key_id = kid, sequence = gen (uuid_ctr w)\<rparr>) (cloud w)),
           uuid_ctr := Suc (uuid_ctr w),
           log := log w @ [Called (mk \<lparr>key_id = kid, sequence = gen (uuid_ctr w)\<rparr>)
             (case fst (f (mk \<lparr>key_id = kid, sequence = gen (uuid_ctr w)\<rparr>) (cloud w)) of
                Inl e \<Rightarrow> Some e | Inr _ \<Rightarrow> None)]\<rparr>))"
  by (simp add: operate_key_request_body_def py_getitem_def uuid4_hex_def call_and_return_def
      sdk_call_effect Let_def split: option.splits sum.splits)

lemma ungated_issue:
  "\<not> gated k \<Longrightarrow> perform_action k cl gen a w = issue_request k cl gen (store w a) w"
  by (cases k) (simp_all add: enableKey_perform_action_def disableKey_perform_action_def
      operate_tail issue_request_def Let_def split: option.splits)

lemma rotation_stops_or_issues:
  assumes "rotationKey_perform_action cl gen a w = (res, w')"
  shows "w' = w \<and> (res = Return (RInt 0) \<or> res = Raise TypeError \<or> (\<exists>f. res = Raise (KeyError f))) \<or>
     eligible_spec (store w a) \<and> (res, w') = issue_request RotationKey cl gen (store w a) w"
  using assms
  unfolding rotationKey_perform_action_def operate_tail issue_request_def Let_def py_getitem_def
  apply (simp split: option.splits sum.splits if_splits bool.splits
       add: py_in_strset_Inr py_in_strset_Inl py_eq_str_iff py_eq_int_0_iff)
  apply (auto simp add: eligible_spec_def unsupported_set)
  done

lemma disable_rotation_stops_or_issues:
  assumes "disableRotationKey_perform_action cl gen a w = (res, w')"
  shows "w' = w \<and> (res = Return (RInt 0) \<or> res = Raise TypeError \<or> (\<exists>f. res = Raise (KeyError f))) \<or>
     eligible_spec (store w a) \<and> (res, w') = issue_request DisableRotationKey cl gen (store w a) w"
  using assms
  unfolding disableRotationKey_perform_action_def operate_tail issue_request_def Let_def py_getitem_def
  apply (simp split: option.splits sum.splits if_splits bool.splits
       add: py_in_strset_Inr py_in_strset_Inl py_eq_str_iff py_eq_int_0_iff)
  apply (auto simp add: eligible_spec_def unsupported_set)
  done

lemma gate_fields_obtain:
  assumes "has_gate_fields d"
  obtains f sp ks st where "d ''default_key_flag'' = Some f" "d ''key_spec'' = Some sp"
    "hashable sp" "d ''keystore_id'' = Some ks" "d ''key_state'' = Some st" "hashable st"
  using assms by (auto simp add: has_gate_fields_def split: option.splits)

lemma rotation_gate_closed:
  assumes "has_gate_fields (store w a)"
  shows "rotationKey_perform_action cl gen a w =
           (if eligible_spec (store w a) then issue_request RotationKey cl gen (store w a) w
            else (Return (RInt 0), w))"
proof -
  from assms obtain f sp ks st where
    fields: "store w a ''default_key_flag'' = Some f" "store w a ''key_spec'' = Some sp"
      "store w a ''keystore_id'' = Some ks" "store w a ''key_state'' = Some st"
    and h: "hashable sp" "hashable st"
    by (rule gate_fields_obtain)
  have sp: "py_in_strset sp notSupportList = Inr (sp \<in> PStr ` notSupportList)"
    and st: "py_in_strset st {''2'', ''3'', ''4''} = Inr (st \<in> PStr ` {''2'', ''3'', ''4''})"
    using h by (simp_all add: py_in_strset_Inr)
  have el: "eligible_spec (store w a) \<longleftrightarrow>
      f \<noteq> PStr ''1'' \<and> sp \<notin> PStr ` notSupportList \<and> (ks = PInt 0 \<or> ks = PBool False) \<and>
      st \<in> PStr ` {''2'', ''3'', ''4''}"
    by (auto simp add: eligible_spec_def fields unsupported_set)
  show ?thesis
    unfolding rotationKey_perform_action_def operate_tail issue_request_def Let_def py_getitem_def el
    by (simp add: fields sp st py_eq_str_iff py_eq_int_0_iff split: bool.splits option.splits)
qed


lemma disable_rotation_gate_closed:
  assumes "has_gate_fields (store w a)"
  shows "disableRotationKey_perform_action cl gen a w =
           (if eligible_spec (store w a) then issue_request DisableRotationKey cl gen (store w a) w
            else (Return (RInt 0), w))"
proof -
  from assms obtain f sp ks st where
    fields: "store w a ''default_key_flag'' = Some f" "store w a ''key_spec'' = Some sp"
      "store w a ''keystore_id'' = Some ks" "store w a ''key_state'' = Some st"
    and h: "hashable sp" "hashable st"
    by (rule gate_fields_obtain)
  have sp: "py_in_strset sp notSupportList = Inr (sp \<in> PStr ` notSupportList)"
    and st: "py_in_strset st {''2'', ''3'', ''4''} = Inr (st \<in> PStr ` {''2'', ''3'', ''4''})"
    using h by (simp_all add: py_in_strset_Inr)
  have el: "eligible_spec (store w a) \<longleftrightarrow>
      f \<noteq> PStr ''1'' \<and> sp \<notin> PStr ` notSupportList \<and> (ks = PInt 0 \<or> ks = PBool False) \<and>
      st \<in> PStr ` {''2'', ''3'', ''4''}"
    by (auto simp add: eligible_spec_def fields unsupported_set)
  show ?thesis
    unfolding disableRotationKey_perform_action_def operate_tail issue_request_def Let_def py_getitem_def el
    by (simp add: fields sp st py_eq_str_iff py_eq_int_0_iff split: bool.splits option.splits)
qed

lemma gated_closed:
  "gated k \<Longrightarrow> has_gate_fields (store w a) \<Longrightarrow>
     perform_action k cl gen a w =
       (if eligible_spec (store w a) then issue_request k cl gen (store w a) w
        else (Return (RInt 0), w))"
  by (cases k) (simp_all add: rotation_gate_closed disable_rotation_gate_closed)

lemma gated_stops_or_issues:
  "gated k \<Longrightarrow> perform_action k cl gen a w = (res, w') \<Longrightarrow>
     w' = w \<and> (res = Return (RInt 0) \<or> res = Raise TypeError \<or> (\<exists>f. res = Raise (KeyError f))) \<or>
     eligible_spec (store w a) \<and> (res, w') = issue_request k cl gen (store w a) w"
  by (cases k) (simp_all add: rotation_stops_or_issues disable_rotation_stops_or_issues)

lemma new_events_same [simp]: "new_events w w = []"
  by (simp add: new_events_def)

lemma new_events_append: "log w' = log w @ es \<Longrightarrow> new_events w w' = es"
  by (simp add: new_events_def)

lemma issue_request_log:
  "log (snd (issue_request k cl gen d w)) =
     log w @ (case d ''key_id'' of
                None \<Rightarrow> []
              | Some kid \<Rightarrow>
                  [Called (request_of k \<lparr>key_id = kid, sequence = gen (uuid_ctr w)\<rparr>)
                     (case fst (method_of k cl (request_of k \<lparr>key_id = kid, sequence = gen (uuid_ctr w)\<rparr>)
                                  (cloud w)) of
                        Inl e \<Rightarrow> Some e | Inr _ \<Rightarrow> None)])"
  by (simp add: issue_request_def Let_def split: option.splits)

lemma issue_request_store: "store (snd (issue_request k cl gen d w)) = store w"
  by (simp add: issue_request_def Let_def split: option.splits)

section \<open>Lemmas: the loop of create-key\<close>

lemma calls_of_append: "calls_of (es @ fs) = calls_of es @ calls_of fs"
  by (induction es rule: calls_of.induct) simp_all

lemma sdk_call_store: "store (snd (sdk_call f req w)) = store w"
  by (simp add: sdk_call_effect)

lemma create_loop_store: "store (snd (create_loop cl arr xs w)) = store w"
  by (induction xs arbitrary: w)
     (simp_all add: sdk_call_effect py_print_def split: sum.splits bool.splits)

lemma create_loop_uuid: "uuid_ctr (snd (create_loop cl arr xs w)) = uuid_ctr w"
  by (induction xs arbitrary: w)
     (simp_all add: sdk_call_effect py_print_def split: sum.splits bool.splits)

text \<open>
  The events of the loop: no call but the last one raises; what the last call raises is
  what the loop raises; the calls are create requests for the aliases not in \<open>arr\<close>, in
  order, all of them when the loop ends normally.
\<close>

lemma create_loop_events:
  fixes cl :: "('s, 'e, 'r) client"
  shows "create_loop cl arr xs w = (res, w') \<Longrightarrow>
   \<exists>es. log w' = log w @ es \<and>
        list_all (\<lambda>e. \<not> raised e) (butlast es) \<and>
        (\<forall>req e. es \<noteq> [] \<and> last es = Called req (Some e) \<longrightarrow> res = Raise (ClientError e)) \<and>
        prefix (calls_of es)
          (map (\<lambda>alias. CreateKeyRequest \<lparr>key_alias = alias\<rparr>) (filter (\<lambda>alias. alias \<notin> PStr ` arr) xs)) \<and>
        (res = Return RNone \<longrightarrow> calls_of es =
          map (\<lambda>alias. CreateKeyRequest \<lparr>key_alias = alias\<rparr>) (filter (\<lambda>alias. alias \<notin> PStr ` arr) xs))"
proof (induction xs arbitrary: w)
  case Nil
  then show ?case by simp
next
  case (Cons al rest)
  show ?case
  proof (cases "py_in_strset al arr :: 'e exc + bool")
    case (Inl x)
    with Cons.prems show ?thesis by auto
  next
    case (Inr b)
    then have b: "b = (al \<in> PStr ` arr)"
      by (simp add: py_in_strset_Inr)
    show ?thesis
    proof (cases b)
      case True
      with Inr Cons.prems have "create_loop cl arr rest w = (res, w')" by simp
      from Cons.IH [OF this] True b show ?thesis by simp
    next
      case False
      let ?req = "CreateKeyRequest \<lparr>key_alias = al\<rparr>"
      show ?thesis
      proof (cases "fst (create_key cl ?req (cloud w))")
        case (Inl e)
        with Inr False Cons.prems b show ?thesis
          by (auto simp add: sdk_call_effect)
      next
        case (Inr r)
        let ?w1 = "py_print r (snd (sdk_call (create_key cl) ?req w))"
        from Inr \<open>py_in_strset al arr = Inr b\<close> False Cons.prems
        have run: "create_loop cl arr rest ?w1 = (res, w')"
          by (simp add: sdk_call_effect)
        from Cons.IH [OF run] obtain es where
          es: "log w' = log ?w1 @ es" "list_all (\<lambda>e. \<not> raised e) (butlast es)"
            "\<forall>req e. es \<noteq> [] \<and> last es = Called req (Some e) \<longrightarrow> res = Raise (ClientError e)"
            "prefix (calls_of es)
              (map (\<lambda>alias. CreateKeyRequest \<lparr>key_alias = alias\<rparr>) (filter (\<lambda>alias. alias \<notin> PStr ` arr) rest))"
            "res = Return RNone \<longrightarrow> calls_of es =
              map (\<lambda>alias. CreateKeyRequest \<lparr>key_alias = alias\<rparr>) (filter (\<lambda>alias. alias \<notin> PStr ` arr) rest)"
          by blast
        have w1: "log ?w1 = log w @ [Called ?req None, Printed r]"
          using Inr by (simp add: sdk_call_effect py_print_def)
        show ?thesis
        proof (intro exI [of _ "[Called ?req None, Printed r] @ es"] conjI)
          show "log w' = log w @ [Called ?req None, Printed r] @ es"
            using es(1) w1 by simp
          show "list_all (\<lambda>e. \<not> raised e) (butlast ([Called ?req None, Printed r] @ es))"
            using es(2) by (simp add: butlast_append)
          show "\<forall>req e. [Called ?req None, Printed r] @ es \<noteq> [] \<and>
              last ([Called ?req None, Printed r] @ es) = Called req (Some e) \<longrightarrow>
              res = Raise (ClientError e)"
            using es(3) by (cases "es = []") auto
          show "prefix (calls_of ([Called ?req None, Printed r] @ es))
              (map (\<lambda>alias. CreateKeyRequest \<lparr>key_alias = alias\<rparr>)
                 (filter (\<lambda>alias. alias \<notin> PStr ` arr) (al # rest)))"
            using es(4) False b by (simp add: calls_of_append)
          show "res = Return RNone \<longrightarrow> calls_of ([Called ?req None, Printed r] @ es) =
              map (\<lambda>alias. CreateKeyRequest \<lparr>key_alias = alias\<rparr>)
                 (filter (\<lambda>alias. alias \<notin> PStr ` arr) (al # rest))"
            using es(5) False b by (simp add: calls_of_append)
        qed
      qed
    qed
  qed
qed

section \<open>Lemmas: the events of an action\<close>

lemma arr_fold:
  "foldl (\<lambda>arr d. insert (kd_key_alias d) arr) S ds = S \<union> kd_key_alias ` set ds"
  by (induction ds arbitrary: S) auto

lemma createKey_process_unfold:
  "createKey_process cl data a w =
     (case fst (list_keys cl (ListKeysRequest \<lparr>key_spec = ''ALL'', limit = ''1000''\<rparr>) (cloud w)) of
        Inl e \<Rightarrow>
          (Raise (ClientError e),
           snd (sdk_call (list_keys cl) (ListKeysRequest \<lparr>key_spec = ''ALL'', limit = ''1000''\<rparr>) w))
      | Inr listKeyResponse \<Rightarrow>
          (case py_iter (py_get data ''key_aliases'' (PList [])) of
             Inl x \<Rightarrow>
               (Raise x,
                snd (sdk_call (list_keys cl) (ListKeysRequest \<lparr>key_spec = ''ALL'', limit = ''1000''\<rparr>) w))
           | Inr aliases \<Rightarrow>
               create_loop cl ({''default''} \<union> kd_key_alias ` set (key_details listKeyResponse)) aliases
                 (snd (sdk_call (list_keys cl) (ListKeysRequest \<lparr>key_spec = ''ALL'', limit = ''1000''\<rparr>) w))))"
  by (simp add: createKey_process_def Let_def sdk_call_effect arr_fold split: sum.splits)

lemma perform_action_cases:
  assumes "perform_action k cl gen a w = (res, w')"
  shows "w' = w \<and> (res = Return (RInt 0) \<or> res = Raise TypeError \<or> (\<exists>f. res = Raise (KeyError f))) \<or>
     (gated k \<longrightarrow> eligible_spec (store w a)) \<and> (res, w') = issue_request k cl gen (store w a) w"
proof (cases "gated k")
  case True
  from gated_stops_or_issues [OF True assms] show ?thesis by blast
next
  case False
  with ungated_issue [OF False, of cl gen a w] assms show ?thesis by simp
qed

lemma raised_only_last:
  assumes "list_all (\<lambda>e. \<not> raised e) (butlast es)" "i < length es" "raised (es ! i)"
  shows "Suc i = length es"
proof (rule ccontr)
  assume "Suc i \<noteq> length es"
  with assms(2) have i: "i < length (butlast es)" by simp
  with assms(1) have "\<not> raised (butlast es ! i)" by (simp add: list_all_length)
  with i assms(3) show False by (simp add: nth_butlast)
qed

lemma perform_action_events:
  assumes "perform_action k cl gen a w = (res, w')"
  shows "\<exists>es. log w' = log w @ es \<and> length es \<le> 1 \<and>
        (\<forall>req e. es \<noteq> [] \<and> last es = Called req (Some e) \<longrightarrow> res = Raise (ClientError e))"
  using perform_action_cases [OF assms]
  by (auto simp add: issue_request_def Let_def split: option.splits sum.splits)


lemma loop_filter_spec:
  "filter (\<lambda>alias. alias \<notin> PStr ` ({''default''} \<union> kd_key_alias ` set ds)) xs =
     aliases_to_create xs ds"
  unfolding aliases_to_create_def by (rule filter_cong) auto

lemma prefix_list_all: "prefix xs ys \<Longrightarrow> list_all Q ys \<Longrightarrow> list_all Q xs"
  by (auto simp add: prefix_def)

lemma creates_all: "list_all is_create_key (map (\<lambda>alias. CreateKeyRequest \<lparr>key_alias = alias\<rparr>) xs)"
  by (simp add: list_all_iff)

text \<open>
  The events of \<open>createKey.process\<close>: the list-keys call first, then the events of the
  loop, if it is reached.
\<close>

lemma createKey_process_events:
  fixes cl :: "('s, 'e, 'r) client"
  assumes "createKey_process cl data a w = (res, w')"
  shows "\<exists>x es. log w' = log w @ Called (ListKeysRequest \<lparr>key_spec = ''ALL'', limit = ''1000''\<rparr>) x # es \<and>
      list_all (\<lambda>e. \<not> raised e)
        (butlast (Called (ListKeysRequest \<lparr>key_spec = ''ALL'', limit = ''1000''\<rparr>) x # es)) \<and>
      (\<forall>req e. last (Called (ListKeysRequest \<lparr>key_spec = ''ALL'', limit = ''1000''\<rparr>) x # es) =
                  Called req (Some e) \<longrightarrow> res = Raise (ClientError e)) \<and>
      list_all is_create_key (calls_of es) \<and>
      length (calls_of es) \<le>
        (case py_iter (py_get data ''key_aliases'' (PList [])) :: 'e exc + pyval list of
           Inl x \<Rightarrow> 0 | Inr aliases \<Rightarrow> length aliases)"
proof -
  let ?req = "ListKeysRequest \<lparr>key_spec = ''ALL'', limit = ''1000''\<rparr>"
  let ?w1 = "snd (sdk_call (list_keys cl) ?req w)"
  show ?thesis
  proof (cases "fst (list_keys cl ?req (cloud w))")
    case (Inl e)
    with assms have "res = Raise (ClientError e) \<and> log w' = log w @ [Called ?req (Some e)]"
      by (auto simp add: createKey_process_unfold sdk_call_effect)
    then show ?thesis
      by - (rule exI [of _ "Some e"], rule exI [of _ "[]"], simp)
  next
    case (Inr resp)
    then have w1: "log ?w1 = log w @ [Called ?req None]"
      by (simp add: sdk_call_effect)
    show ?thesis
    proof (cases "py_iter (py_get data ''key_aliases'' (PList [])) :: 'e exc + pyval list")
      case (Inl x)
      with Inr assms have "log w' = log w @ [Called ?req None]"
        by (auto simp add: createKey_process_unfold sdk_call_effect)
      with Inl show ?thesis
        by - (rule exI [of _ None], rule exI [of _ "[]"], simp)
    next
      case aliases: (Inr aliases)
      let ?arr = "{''default''} \<union> kd_key_alias ` set (key_details resp)"
      from Inr aliases assms have "create_loop cl ?arr aliases ?w1 = (res, w')"
        by (simp add: createKey_process_unfold)
      from create_loop_events [OF this] obtain es where
        es: "log w' = log ?w1 @ es" "list_all (\<lambda>e. \<not> raised e) (butlast es)"
          "\<forall>req e. es \<noteq> [] \<and> last es = Called req (Some e) \<longrightarrow> res = Raise (ClientError e)"
          "prefix (calls_of es)
            (map (\<lambda>alias. CreateKeyRequest \<lparr>key_alias = alias\<rparr>)
               (filter (\<lambda>alias. alias \<notin> PStr ` ?arr) aliases))"
        by blast
      have creates: "list_all is_create_key (calls_of es)"
        using prefix_list_all [OF es(4) creates_all] .
      have "length (calls_of es) \<le> length (filter (\<lambda>alias. alias \<notin> PStr ` ?arr) aliases)"
        using prefix_length_le [OF es(4)] by simp
      also have "\<dots> \<le> length aliases"
        by (rule length_filter_le)
      finally have len: "length (calls_of es) \<le> length aliases" .
      have last: "\<forall>req e. last (Called ?req None # es) = Called req (Some e) \<longrightarrow>
          res = Raise (ClientError e)"
        using es(3) by (cases "es = []") simp_all
      have quiet: "list_all (\<lambda>e. \<not> raised e) (butlast (Called ?req None # es))"
        using es(2) by (cases "es = []") simp_all
      have grown: "log w' = log w @ Called ?req None # es"
        using es(1) w1 by simp
      have bound: "length (calls_of es) \<le>
          (case py_iter (py_get data ''key_aliases'' (PList [])) :: 'e exc + pyval list of
             Inl x \<Rightarrow> 0 | Inr aliases \<Rightarrow> length aliases)"
        using len by (simp add: aliases)
      show ?thesis
        by (rule exI [of _ None], rule exI [of _ es]) (intro conjI grown quiet last creates bound)
    qed
  qed
qed

lemma createKey_process_creates:
  fixes cl :: "('s, 'e, 'r) client"
  assumes run: "createKey_process cl data a w = (res, w')"
    and listed: "fst (list_keys cl (ListKeysRequest \<lparr>key_spec = ''ALL'', limit = ''1000''\<rparr>) (cloud w)) =
        Inr resp"
    and aliases: "(py_iter (py_get data ''key_aliases'' (PList [])) :: 'e exc + pyval list) = Inr aliases"
  shows "\<exists>es. log w' = log w @ Called (ListKeysRequest \<lparr>key_spec = ''ALL'', limit = ''1000''\<rparr>) None # es \<and>
      prefix (calls_of es)
        (map (\<lambda>alias. CreateKeyRequest \<lparr>key_alias = alias\<rparr>) (aliases_to_create aliases (key_details resp))) \<and>
      (res = Return RNone \<longrightarrow> calls_of es =
        map (\<lambda>alias. CreateKeyRequest \<lparr>key_alias = alias\<rparr>) (aliases_to_create aliases (key_details resp)))"
proof -
  let ?req = "ListKeysRequest \<lparr>key_spec = ''ALL'', limit = ''1000''\<rparr>"
  let ?w1 = "snd (sdk_call (list_keys cl) ?req w)"
  let ?arr = "{''default''} \<union> kd_key_alias ` set (key_details resp)"
  have w1: "log ?w1 = log w @ [Called ?req None]"
    using listed by (simp add: sdk_call_effect)
  from run listed aliases have "create_loop cl ?arr aliases ?w1 = (res, w')"
    by (simp add: createKey_process_unfold)
  from create_loop_events [OF this] obtain es where
    es: "log w' = log ?w1 @ es"
      "prefix (calls_of es)
        (map (\<lambda>alias. CreateKeyRequest \<lparr>key_alias = alias\<rparr>)
           (filter (\<lambda>alias. alias \<notin> PStr ` ?arr) aliases))"
      "res = Return RNone \<longrightarrow> calls_of es =
        map (\<lambda>alias. CreateKeyRequest \<lparr>key_alias = alias\<rparr>)
           (filter (\<lambda>alias. alias \<notin> PStr ` ?arr) aliases)"
    by blast
  have "log w' = log w @ Called ?req None # es"
    using es(1) w1 by simp
  with es(2,3) [unfolded loop_filter_spec] show ?thesis
    by blast
qed

section \<open>Lemmas: runs on the example worlds\<close>

lemmas run_defs =
  rotationKey_perform_action_def disableRotationKey_perform_action_def
  enableKey_perform_action_def disableKey_perform_action_def createKey_process_def
  operate_key_request_body_def call_and_return_def sdk_call_def uuid4_hex_def py_getitem_def
  py_get_def py_print_def notSupportList_def world_of_def gen0_def good_client_def
  bad_client_def listed_def plain_key_def default_key_def twice_policy_def
  twice_policy_obs_def new_events_def

lemma world_of_log: "log (world_of d) = []"
  by (simp add: world_of_def)

lemma world_of_store: "store (world_of d) = (\<lambda>a. d)"
  by (simp add: world_of_def)

lemma run_enable_bad:
  "enableKey_perform_action bad_client gen0 0 (world_of plain_key) =
     (Raise (ClientError ''KMS.0003''),
      \<lparr>store = (\<lambda>a. plain_key), cloud = 1, uuid_ctr = 1,
       log = [Called (EnableKeyRequest \<lparr>key_id = PStr ''k-1'', sequence = ''a''\<rparr>) (Some ''KMS.0003'')]\<rparr>)"
  by (simp add: run_defs)

lemma run_disable_plain:
  "disableKey_perform_action good_client gen0 0 (world_of plain_key) =
     (Return (RResp ''disabled''),
      \<lparr>store = (\<lambda>a. plain_key), cloud = 1, uuid_ctr = 1,
       log = [Called (DisableKeyRequest \<lparr>key_id = PStr ''k-1'', sequence = ''a''\<rparr>) None]\<rparr>)"
  by (simp add: run_defs)

lemma run_enable_default:
  "enableKey_perform_action good_client gen0 0 (world_of default_key) =
     (Return (RResp ''enabled''),
      \<lparr>store = (\<lambda>a. default_key), cloud = 1, uuid_ctr = 1,
       log = [Called (EnableKeyRequest \<lparr>key_id = PStr ''k-2'', sequence = ''a''\<rparr>) None]\<rparr>)"
  by (simp add: run_defs)

lemma run_rotation_default:
  "rotationKey_perform_action good_client gen0 0 (world_of default_key) =
     (Return (RInt 0), world_of default_key)"
  by (simp add: run_defs)

lemma run_rotation_empty:
  "rotationKey_perform_action good_client gen0 0 (world_of Map.empty) =
     (Raise (KeyError ''default_key_flag''), world_of Map.empty)"
  by (simp add: run_defs)

lemma run_create_twice:
  "createKey_process good_client twice_policy 0 (world_of plain_key) =
     (Return RNone,
      \<lparr>store = (\<lambda>a. plain_key), cloud = 3, uuid_ctr = 0,
       log = [Called (ListKeysRequest \<lparr>key_spec = ''ALL'', limit = ''1000''\<rparr>) None,
              Called (CreateKeyRequest \<lparr>key_alias = PStr ''bbb''\<rparr>) None, Printed ''created'',
              Called (CreateKeyRequest \<lparr>key_alias = PStr ''bbb''\<rparr>) None, Printed ''created'']\<rparr>)"
  by (simp add: run_defs)

lemma run_create_bad:
  "createKey_process bad_client twice_policy 0 (world_of plain_key) =
     (Raise (ClientError ''KMS.0005''),
      \<lparr>store = (\<lambda>a. plain_key), cloud = 2, uuid_ctr = 0,
       log = [Called (ListKeysRequest \<lparr>key_spec = ''ALL'', limit = ''1000''\<rparr>) None,
              Called (CreateKeyRequest \<lparr>key_alias = PStr ''bbb''\<rparr>) (Some ''KMS.0005'')]\<rparr>)"
  by (simp add: run_defs)


lemma run_action_events:
  assumes "run_action act cl gen data a w = (res, w')"
  shows "\<exists>es. log w' = log w @ es \<and> list_all (\<lambda>e. \<not> raised e) (butlast es) \<and>
      (\<forall>req e. es \<noteq> [] \<and> last es = Called req (Some e) \<longrightarrow> res = Raise (ClientError e))"
proof (cases act)
  case (PerKey k)
  with assms have "perform_action k cl gen a w = (res, w')" by simp
  from perform_action_events [OF this] obtain es where
    es: "log w' = log w @ es" "length es \<le> 1"
      "\<forall>req e. es \<noteq> [] \<and> last es = Called req (Some e) \<longrightarrow> res = Raise (ClientError e)"
    by blast
  from es(2) have "butlast es = []" by (cases es) auto
  with es(1,3) show ?thesis by auto
next
  case CreateKey
  with assms have "createKey_process cl data a w = (res, w')" by simp
  from createKey_process_events [OF this] show ?thesis by blast
qed

section \<open>Lemmas: what the claims need besides\<close>

lemma plain_key_fields:
  "has_gate_fields plain_key" "eligible_spec plain_key" "plain_key ''key_id'' = Some (PStr ''k-1'')"
  by (simp_all add: has_gate_fields_def eligible_spec_def plain_key_def unsupported_key_specs_def)

lemma default_key_fields:
  "has_gate_fields default_key" "\<not> eligible_spec default_key"
  "default_key ''key_id'' = Some (PStr ''k-2'')"
  by (simp_all add: has_gate_fields_def eligible_spec_def default_key_def unsupported_key_specs_def)

lemma creates_no_list: "list_all is_create_key rs \<Longrightarrow> filter is_list_keys rs = []"
proof (induction rs)
  case Nil
  then show ?case by simp
next
  case (Cons r rs)
  then show ?case by (cases r) simp_all
qed

lemma creates_filter: "list_all is_create_key rs \<Longrightarrow> filter is_create_key rs = rs"
  by (simp add: list_all_iff)

lemma create_loop_returns:
  fixes cl :: "('s, 'e, 'r) client"
  assumes "\<forall>req c. \<exists>r. fst (create_key cl req c) = Inr r"
  shows "list_all hashable xs \<Longrightarrow> fst (create_loop cl arr xs w) = Return RNone"
proof (induction xs arbitrary: w)
  case Nil
  then show ?case by simp
next
  case (Cons x xs)
  from Cons.prems have h: "hashable x" and rest: "list_all hashable xs" by simp_all
  from h have al: "(py_in_strset x arr :: 'e exc + bool) = Inr (x \<in> PStr ` arr)"
    by (simp add: py_in_strset_Inr)
  from assms obtain r where r: "fst (create_key cl (CreateKeyRequest \<lparr>key_alias = x\<rparr>) (cloud w)) = Inr r"
    by blast
  show ?case
    by (simp add: al r sdk_call_effect Cons.IH [OF rest] split: bool.splits)
qed

lemma rotationKey_checks:
  "rotationKey_perform_action cl gen a w =
     inline_checks (store w a) w (issue_request RotationKey cl gen (store w a) w)"
  unfolding rotationKey_perform_action_def inline_checks_def operate_tail issue_request_def Let_def
    method_of.simps request_of.simps
  by (rule refl)

lemma disableRotationKey_checks:
  "disableRotationKey_perform_action cl gen a w =
     inline_checks (store w a) w (issue_request DisableRotationKey cl gen (store w a) w)"
  unfolding disableRotationKey_perform_action_def inline_checks_def operate_tail issue_request_def Let_def
    method_of.simps request_of.simps
  by (rule refl)

lemma inline_checks_decide:
  fixes rest rest' :: "('e, 'r) outcome \<times> 'w"
  shows "inline_checks d w rest = rest \<and> inline_checks d w rest' = rest' \<or>
     inline_checks d w rest = inline_checks d w rest'"
proof (cases "py_getitem d ''default_key_flag'' :: 'e exc + pyval")
  case (Inl x)
  then show ?thesis by (simp add: inline_checks_def)
next
  case flag: (Inr flag)
  show ?thesis
  proof (cases "py_eq_str flag ''1''")
    case True
    with flag show ?thesis by (simp add: inline_checks_def)
  next
    case not_default: False
    show ?thesis
    proof (cases "py_getitem d ''key_spec'' :: 'e exc + pyval")
      case (Inl x)
      with flag not_default show ?thesis by (simp add: inline_checks_def)
    next
      case spec: (Inr spec)
      show ?thesis
      proof (cases "py_in_strset spec notSupportList :: 'e exc + bool")
        case (Inl x)
        with flag not_default spec show ?thesis by (simp add: inline_checks_def)
      next
        case unsupported: (Inr unsupported)
        show ?thesis
        proof (cases unsupported)
          case True
          with flag not_default spec unsupported show ?thesis by (simp add: inline_checks_def)
        next
          case supported: False
          show ?thesis
          proof (cases "py_getitem d ''keystore_id'' :: 'e exc + pyval")
            case (Inl x)
            with flag not_default spec unsupported supported show ?thesis
              by (simp add: inline_checks_def)
          next
            case ks: (Inr ks)
            show ?thesis
            proof (cases "py_eq_int ks 0")
              case False
              with flag not_default spec unsupported supported ks show ?thesis
                by (simp add: inline_checks_def)
            next
              case own_store: True
              show ?thesis
              proof (cases "py_getitem d ''key_state'' :: 'e exc + pyval")
                case (Inl x)
                with flag not_default spec unsupported supported ks own_store show ?thesis
                  by (simp add: inline_checks_def)
              next
                case st: (Inr st)
                show ?thesis
                proof (cases "py_in_strset st {''2'', ''3'', ''4''} :: 'e exc + bool")
                  case (Inl x)
                  with flag not_default spec unsupported supported ks own_store st show ?thesis
                    by (simp add: inline_checks_def)
                next
                  case (Inr live)
                  with flag not_default spec unsupported supported ks own_store st show ?thesis
                    by (cases live) (simp_all add: inline_checks_def)
                qed
              qed
            qed
          qed
        qed
      qed
    qed
  qed
qed

lemma issue_request_events:
  "new_events w (snd (issue_request k cl gen d w)) =
     (case d ''key_id'' of
        None \<Rightarrow> []
      | Some kid \<Rightarrow>
          [Called (request_of k \<lparr>key_id = kid, sequence = gen (uuid_ctr w)\<rparr>)
             (case fst (method_of k cl (request_of k \<lparr>key_id = kid, sequence = gen (uuid_ctr w)\<rparr>)
                          (cloud w)) of
                Inl e \<Rightarrow> Some e | Inr _ \<Rightarrow> None)])"
  by (rule new_events_append) (rule issue_request_log)

lemma issue_request_no_key:
  "d ''key_id'' = None \<Longrightarrow> issue_request k cl gen d w = (Raise (KeyError ''key_id''), w)"
  by (simp add: issue_request_def)

lemma run_rotation_plain:
  "rotationKey_perform_action good_client gen0 0 (world_of plain_key) =
     (Return (RResp ''rotation on''),
      \<lparr>store = (\<lambda>a. plain_key), cloud = 1, uuid_ctr = 1,
       log = [Called (EnableKeyRotationRequest \<lparr>key_id = PStr ''k-1'', sequence = ''a''\<rparr>) None]\<rparr>)"
  by (simp add: run_defs)

lemma run_disable_default:
  "disableKey_perform_action good_client gen0 0 (world_of default_key) =
     (Return (RResp ''disabled''),
      \<lparr>store = (\<lambda>a. default_key), cloud = 1, uuid_ctr = 1,
       log = [Called (DisableKeyRequest \<lparr>key_id = PStr ''k-2'', sequence = ''a''\<rparr>) None]\<rparr>)"
  by (simp add: run_defs)

lemma run_disable_rotation_default:
  "disableRotationKey_perform_action good_client gen0 0 (world_of default_key) =
     (Return (RInt 0), world_of default_key)"
  by (simp add: run_defs)

lemma create_loop_no_response:
  "fst (create_loop cl arr xs w) \<noteq> Return (RResp r)"
  by (induction xs arbitrary: w)
     (simp_all add: sdk_call_effect split: sum.splits bool.splits)

lemma dom_seven_updates:
  "dom (m(k1 \<mapsto> v1, k2 \<mapsto> v2, k3 \<mapsto> v3, k4 \<mapsto> v4, k5 \<mapsto> v5, k6 \<mapsto> v6, k7 \<mapsto> v7)) =
     dom m \<union> {k1, k2, k3, k4, k5, k6, k7}"
  by auto

lemma registrations_once: "distinct (map (\<lambda>(r, name, p). (r, name)) module_registrations)"
  by (simp add: module_registrations_def)

section \<open>Lemmas: create-key, call by call\<close>

text \<open>
  The loop of \<open>create-key\<close> taken apart: a run over a list that returned carries on
  with what follows the list; an alias that is new and whose request raises ends the
  loop there; and over hashable elements the loop is \<open>create_run\<close> on the elements not
  in \<open>arr\<close>.
\<close>

lemma create_loop_append:
  fixes cl :: "('s, 'e, 'r) client"
  shows "create_loop cl arr xs w = (Return RNone, w1) \<Longrightarrow>
     create_loop cl arr (xs @ ys) w = create_loop cl arr ys w1"
proof (induction xs arbitrary: w)
  case Nil
  then show ?case by simp
next
  case (Cons x xs)
  show ?case
  proof (cases "py_in_strset x arr :: 'e exc + bool")
    case (Inl t)
    with Cons.prems show ?thesis by simp
  next
    case (Inr known)
    show ?thesis
    proof (cases known)
      case True
      with Inr Cons.prems have "create_loop cl arr xs w = (Return RNone, w1)" by simp
      from Cons.IH [OF this] Inr True show ?thesis by simp
    next
      case False
      show ?thesis
      proof (cases "fst (create_key cl (CreateKeyRequest \<lparr>key_alias = x\<rparr>) (cloud w))")
        case (Inl e)
        with Inr False Cons.prems show ?thesis
          by (simp add: sdk_call_effect)
      next
        case answered: (Inr r)
        with Inr False Cons.prems
        have "create_loop cl arr xs
            (py_print r (snd (sdk_call (create_key cl) (CreateKeyRequest \<lparr>key_alias = x\<rparr>) w))) =
            (Return RNone, w1)"
          by (simp add: sdk_call_effect)
        from Cons.IH [OF this] Inr False answered show ?thesis
          by (simp add: sdk_call_effect)
      qed
    qed
  qed
qed

lemma create_loop_first_raises:
  fixes cl :: "('s, 'e, 'r) client"
  assumes "hashable x" "x \<notin> PStr ` arr"
    and "fst (create_key cl (CreateKeyRequest \<lparr>key_alias = x\<rparr>) (cloud w)) = Inl e"
  shows "create_loop cl arr (x # rest) w =
     (Raise (ClientError e),
      w\<lparr>cloud := snd (create_key cl (CreateKeyRequest \<lparr>key_alias = x\<rparr>) (cloud w)),
        log := log w @ [Called (CreateKeyRequest \<lparr>key_alias = x\<rparr>) (Some e)]\<rparr>)"
proof -
  from assms(1,2) have "(py_in_strset x arr :: 'e exc + bool) = Inr False"
    by (simp add: py_in_strset_Inr)
  with assms(3) show ?thesis
    by (simp add: sdk_call_effect)
qed

lemma create_loop_is_run:
  fixes cl :: "('s, 'e, 'r) client"
  shows "list_all hashable xs \<Longrightarrow>
     create_loop cl arr xs w =
       (case create_run cl (filter (\<lambda>alias. alias \<notin> PStr ` arr) xs) (cloud w) of
          (out, c, es) \<Rightarrow> (out, w\<lparr>cloud := c, log := log w @ es\<rparr>))"
proof (induction xs arbitrary: w)
  case Nil
  then show ?case by simp
next
  case (Cons x xs)
  from Cons.prems have h: "hashable x" and rest: "list_all hashable xs" by simp_all
  from h have known: "(py_in_strset x arr :: 'e exc + bool) = Inr (x \<in> PStr ` arr)"
    by (simp add: py_in_strset_Inr)
  show ?case
  proof (cases "x \<in> PStr ` arr")
    case True
    with known Cons.IH [OF rest, of w] show ?thesis by simp
  next
    case False
    show ?thesis
    proof (cases "create_key cl (CreateKeyRequest \<lparr>key_alias = x\<rparr>) (cloud w)")
      case (Pair answer c)
      show ?thesis
      proof (cases answer)
        case (Inl e)
        with Pair False known show ?thesis
          by (simp add: sdk_call_def)
      next
        case (Inr r)
        let ?w1 = "py_print r (w\<lparr>cloud := c, log := log w @ [Called (CreateKeyRequest \<lparr>key_alias = x\<rparr>) None]\<rparr>)"
        from Cons.IH [OF rest, of ?w1] Pair Inr False known show ?thesis
          by (simp add: sdk_call_def py_print_def split: prod.splits)
      qed
    qed
  qed
qed



text \<open>The three ways through \<open>createKey.process\<close>, by what the first two steps give.\<close>

lemma sdk_call_log:
  "log (snd (sdk_call f req w)) =
     log w @ [Called req (case fst (f req (cloud w)) of Inl e \<Rightarrow> Some e | Inr _ \<Rightarrow> None)]"
  by (simp add: sdk_call_effect)

lemma createKey_process_list_failed:
  assumes "fst (list_keys cl (ListKeysRequest \<lparr>key_spec = ''ALL'', limit = ''1000''\<rparr>) (cloud w)) = Inl e"
  shows "createKey_process cl data a w =
     (Raise (ClientError e),
      snd (sdk_call (list_keys cl) (ListKeysRequest \<lparr>key_spec = ''ALL'', limit = ''1000''\<rparr>) w))"
  by (simp only: createKey_process_unfold assms sum.case)

lemma createKey_process_not_iterable:
  fixes cl :: "('s, 'e, 'r) client"
  assumes "fst (list_keys cl (ListKeysRequest \<lparr>key_spec = ''ALL'', limit = ''1000''\<rparr>) (cloud w)) = Inr resp"
    and "(py_iter (py_get data ''key_aliases'' (PList [])) :: 'e exc + pyval list) = Inl x"
  shows "createKey_process cl data a w =
     (Raise x,
      snd (sdk_call (list_keys cl) (ListKeysRequest \<lparr>key_spec = ''ALL'', limit = ''1000''\<rparr>) w))"
  by (simp only: createKey_process_unfold assms sum.case)

lemma createKey_process_loop:
  fixes cl :: "('s, 'e, 'r) client"
  assumes "fst (list_keys cl (ListKeysRequest \<lparr>key_spec = ''ALL'', limit = ''1000''\<rparr>) (cloud w)) = Inr resp"
    and "(py_iter (py_get data ''key_aliases'' (PList [])) :: 'e exc + pyval list) = Inr aliases"
  shows "createKey_process cl data a w =
     create_loop cl ({''default''} \<union> kd_key_alias ` set (key_details resp)) aliases
       (snd (sdk_call (list_keys cl) (ListKeysRequest \<lparr>key_spec = ''ALL'', limit = ''1000''\<rparr>) w))"
  by (simp only: createKey_process_unfold assms sum.case)

lemma createKey_process_is_run:
  fixes cl :: "('s, 'e, 'r) client"
  assumes listed: "fst (list_keys cl (ListKeysRequest \<lparr>key_spec = ''ALL'', limit = ''1000''\<rparr>) (cloud w)) =
        Inr resp"
    and aliases: "(py_iter (py_get data ''key_aliases'' (PList [])) :: 'e exc + pyval list) = Inr aliases"
    and hashable: "list_all hashable aliases"
  shows "createKey_process cl data a w =
     (case create_run cl (aliases_to_create aliases (key_details resp))
             (snd (list_keys cl (ListKeysRequest \<lparr>key_spec = ''ALL'', limit = ''1000''\<rparr>) (cloud w))) of
        (out, c, es) \<Rightarrow>
          (out, w\<lparr>cloud := c,
                 log := log w @ Called (ListKeysRequest \<lparr>key_spec = ''ALL'', limit = ''1000''\<rparr>) None # es\<rparr>))"
proof -
  let ?req = "ListKeysRequest \<lparr>key_spec = ''ALL'', limit = ''1000''\<rparr>"
  let ?arr = "{''default''} \<union> kd_key_alias ` set (key_details resp)"
  let ?w1 = "snd (sdk_call (list_keys cl) ?req w)"
  have w1: "?w1 = w\<lparr>cloud := snd (list_keys cl ?req (cloud w)), log := log w @ [Called ?req None]\<rparr>"
    using listed by (simp add: sdk_call_effect)
  obtain out c es where run:
    "create_run cl (aliases_to_create aliases (key_details resp)) (snd (list_keys cl ?req (cloud w))) =
       (out, c, es)"
    by (cases "create_run cl (aliases_to_create aliases (key_details resp))
        (snd (list_keys cl ?req (cloud w)))")
  have "createKey_process cl data a w = create_loop cl ?arr aliases ?w1"
    using listed aliases by (rule createKey_process_loop)
  also have "\<dots> = (case create_run cl (filter (\<lambda>alias. alias \<notin> PStr ` ?arr) aliases) (cloud ?w1) of
      (out, c, es) \<Rightarrow> (out, ?w1\<lparr>cloud := c, log := log ?w1 @ es\<rparr>))"
    using hashable by (rule create_loop_is_run)
  also have "\<dots> = (out, w\<lparr>cloud := c, log := log w @ Called ?req None # es\<rparr>)"
    unfolding loop_filter_spec w1 by (simp add: run)
  finally show ?thesis
    by (simp add: run)
qed

lemma createKey_process_subseq:
  fixes cl :: "('s, 'e, 'r) client"
  assumes run: "createKey_process cl data a w = (res, w')"
  shows "subseq (filter is_create_key (calls_of (new_events w w')))
      (map (\<lambda>alias. CreateKeyRequest \<lparr>key_alias = alias\<rparr>)
         (case py_iter (py_get data ''key_aliases'' (PList [])) :: 'e exc + pyval list of
            Inl x \<Rightarrow> [] | Inr aliases \<Rightarrow> aliases))"
proof -
  let ?req = "ListKeysRequest \<lparr>key_spec = ''ALL'', limit = ''1000''\<rparr>"
  let ?f = "\<lambda>alias. CreateKeyRequest \<lparr>key_alias = alias\<rparr>"
  show ?thesis
  proof (cases "fst (list_keys cl ?req (cloud w))")
    case (Inl e)
    from run have "w' = snd (sdk_call (list_keys cl) ?req w)"
      unfolding createKey_process_list_failed [OF Inl] by simp
    then have "log w' = log w @ [Called ?req (Some e)]"
      by (simp add: sdk_call_log Inl)
    then have "new_events w w' = [Called ?req (Some e)]"
      by (rule new_events_append)
    then show ?thesis by simp
  next
    case (Inr resp)
    show ?thesis
    proof (cases "py_iter (py_get data ''key_aliases'' (PList [])) :: 'e exc + pyval list")
      case (Inl x)
      from run have "w' = snd (sdk_call (list_keys cl) ?req w)"
        unfolding createKey_process_not_iterable [OF Inr Inl] by simp
      then have "log w' = log w @ [Called ?req None]"
        by (simp add: sdk_call_log Inr)
      then have "new_events w w' = [Called ?req None]"
        by (rule new_events_append)
      then show ?thesis by simp
    next
      case aliases: (Inr aliases)
      from createKey_process_creates [OF run Inr aliases] obtain es where
        es: "log w' = log w @ Called ?req None # es"
          "prefix (calls_of es) (map ?f (aliases_to_create aliases (key_details resp)))"
        by blast
      have "new_events w w' = Called ?req None # es"
        using es(1) by (rule new_events_append)
      then have "filter is_create_key (calls_of (new_events w w')) =
          filter is_create_key (calls_of es)"
        by simp
      also have "subseq \<dots> (calls_of es)"
        by (rule subseq_filter_left)
      also have "subseq (calls_of es) (map ?f (aliases_to_create aliases (key_details resp)))"
        using es(2) by (rule prefix_imp_subseq)
      also have "subseq (map ?f (aliases_to_create aliases (key_details resp))) (map ?f aliases)"
        unfolding aliases_to_create_def by (intro subseq_map subseq_filter_left)
      finally show ?thesis
        by (simp add: aliases)
    qed
  qed
qed

lemma run_create_down:
  "createKey_process down_client twice_policy 0 (world_of plain_key) =
     (Raise (ClientError ''KMS.0006''),
      \<lparr>store = (\<lambda>a. plain_key), cloud = 1, uuid_ctr = 0,
       log = [Called (ListKeysRequest \<lparr>key_spec = ''ALL'', limit = ''1000''\<rparr>) (Some ''KMS.0006'')]\<rparr>)"
  by (simp add: run_defs down_client_def)

lemma run_create_nothing:
  "createKey_process bad_client Map.empty 0 (world_of plain_key) =
     (Return RNone,
      \<lparr>store = (\<lambda>a. plain_key), cloud = 1, uuid_ctr = 0,
       log = [Called (ListKeysRequest \<lparr>key_spec = ''ALL'', limit = ''1000''\<rparr>) None]\<rparr>)"
  by (simp add: run_defs)

lemma run_rotation_bad:
  "rotationKey_perform_action bad_client gen0 0 (world_of plain_key) =
     (Raise (ClientError ''KMS.0001''),
      \<lparr>store = (\<lambda>a. plain_key), cloud = 1, uuid_ctr = 1,
       log = [Called (EnableKeyRotationRequest \<lparr>key_id = PStr ''k-1'', sequence = ''a''\<rparr>)
                (Some ''KMS.0001'')]\<rparr>)"
  by (simp add: run_defs)

section \<open>Claims\<close>



text \<open>
  C2. For every action and every resource: when an SDK call of the action raises, the
  action raises that very exception and does nothing after it. Read off the log: a
  call that raised is the last event of the run, and what it raised is the outcome.
  Read off the client: when the method a key action calls raises, when \<open>list_keys\<close>
  raises, or when \<open>create_key\<close> raises for an alias after the aliases before it went
  through, the run ends there, with that exception and with the raising call as its
  last event.
\<close>

theorem sdk_exception_reraised:
  fixes cl :: "('s, 'e, 'r) client"
  assumes "run_action act cl gen data a w = (res, w')"
  shows "(\<forall>i req e. i < length (new_events w w') \<and> new_events w w' ! i = Called req (Some e) \<longrightarrow>
        res = Raise (ClientError e) \<and> Suc i = length (new_events w w')) \<and>
     (\<forall>k kid e. act = PerKey k \<and> store w a ''key_id'' = Some kid \<and>
        (gated k \<longrightarrow> has_gate_fields (store w a) \<and> eligible_spec (store w a)) \<and>
        fst (method_of k cl (request_of k \<lparr>key_id = kid, sequence = gen (uuid_ctr w)\<rparr>) (cloud w)) =
          Inl e \<longrightarrow>
        res = Raise (ClientError e) \<and>
        new_events w w' =
          [Called (request_of k \<lparr>key_id = kid, sequence = gen (uuid_ctr w)\<rparr>) (Some e)]) \<and>
     (\<forall>e. act = CreateKey \<and>
        fst (list_keys cl (ListKeysRequest \<lparr>key_spec = ''ALL'', limit = ''1000''\<rparr>) (cloud w)) = Inl e \<longrightarrow>
        res = Raise (ClientError e) \<and>
        new_events w w' =
          [Called (ListKeysRequest \<lparr>key_spec = ''ALL'', limit = ''1000''\<rparr>) (Some e)]) \<and>
     (\<forall>resp data1 before alias rest w1 e. act = CreateKey \<and>
        fst (list_keys cl (ListKeysRequest \<lparr>key_spec = ''ALL'', limit = ''1000''\<rparr>) (cloud w)) =
          Inr resp \<and>
        (py_iter (py_get data1 ''key_aliases'' (PList [])) :: 'e exc + pyval list) = Inr before \<and>
        (py_iter (py_get data ''key_aliases'' (PList [])) :: 'e exc + pyval list) =
          Inr (before @ alias # rest) \<and>
        createKey_process cl data1 a w = (Return RNone, w1) \<and>
        hashable alias \<and> alias \<noteq> PStr ''default'' \<and>
        alias \<notin> PStr ` kd_key_alias ` set (key_details resp) \<and>
        fst (create_key cl (CreateKeyRequest \<lparr>key_alias = alias\<rparr>) (cloud w1)) = Inl e \<longrightarrow>
        res = Raise (ClientError e) \<and>
        w' = w1\<lparr>cloud := snd (create_key cl (CreateKeyRequest \<lparr>key_alias = alias\<rparr>) (cloud w1)),
               log := log w1 @ [Called (CreateKeyRequest \<lparr>key_alias = alias\<rparr>) (Some e)]\<rparr>)"
proof (intro conjI allI impI)
  fix i req e
  assume hyp: "i < length (new_events w w') \<and> new_events w w' ! i = Called req (Some e)"
  from run_action_events [OF assms] obtain es where
    es: "log w' = log w @ es" "list_all (\<lambda>e. \<not> raised e) (butlast es)"
      "\<forall>req e. es \<noteq> [] \<and> last es = Called req (Some e) \<longrightarrow> res = Raise (ClientError e)"
    by blast
  have ev: "new_events w w' = es"
    using es(1) by (rule new_events_append)
  from hyp have i: "i < length es" "es ! i = Called req (Some e)"
    by (simp_all add: ev)
  then have "raised (es ! i)" by simp
  from raised_only_last [OF es(2) i(1) this] have last: "Suc i = length es" .
  then have "es \<noteq> []" and "length es - 1 = i"
    by auto
  then have "es \<noteq> []" "last es = es ! i"
    by (simp_all add: last_conv_nth)
  with es(3) i(2) last have "res = Raise (ClientError e) \<and> Suc i = length (new_events w w')"
    by (simp add: ev)
  then show "res = Raise (ClientError e)" and "Suc i = length (new_events w w')"
    by simp_all
next
  fix k kid e
  let ?req = "request_of k \<lparr>key_id = kid, sequence = gen (uuid_ctr w)\<rparr>"
  assume hyp: "act = PerKey k \<and> store w a ''key_id'' = Some kid \<and>
      (gated k \<longrightarrow> has_gate_fields (store w a) \<and> eligible_spec (store w a)) \<and>
      fst (method_of k cl ?req (cloud w)) = Inl e"
  have "perform_action k cl gen a w = issue_request k cl gen (store w a) w"
  proof (cases "gated k")
    case True
    with hyp show ?thesis by (simp add: gated_closed)
  next
    case False
    then show ?thesis by (rule ungated_issue)
  qed
  with assms hyp have run: "issue_request k cl gen (store w a) w = (res, w')"
    by simp
  from hyp have "fst (issue_request k cl gen (store w a) w) = Raise (ClientError e)"
    by (simp add: issue_request_def Let_def)
  moreover from hyp have "new_events w (snd (issue_request k cl gen (store w a) w)) =
      [Called ?req (Some e)]"
    by (simp add: issue_request_events)
  ultimately have "res = Raise (ClientError e) \<and> new_events w w' = [Called ?req (Some e)]"
    by (simp add: run)
  then show "res = Raise (ClientError e)" and "new_events w w' = [Called ?req (Some e)]"
    by simp_all
next
  fix e
  let ?req = "ListKeysRequest \<lparr>key_spec = ''ALL'', limit = ''1000''\<rparr>"
  assume hyp: "act = CreateKey \<and> fst (list_keys cl ?req (cloud w)) = Inl e"
  then have failed: "fst (list_keys cl ?req (cloud w)) = Inl e" by simp
  from assms hyp have "createKey_process cl data a w = (res, w')" by simp
  then have "res = Raise (ClientError e)" and "w' = snd (sdk_call (list_keys cl) ?req w)"
    unfolding createKey_process_list_failed [OF failed] by simp_all
  moreover have "log (snd (sdk_call (list_keys cl) ?req w)) = log w @ [Called ?req (Some e)]"
    by (simp add: sdk_call_log failed)
  ultimately have "res = Raise (ClientError e) \<and> new_events w w' = [Called ?req (Some e)]"
    by (simp add: new_events_append)
  then show "res = Raise (ClientError e)" and "new_events w w' = [Called ?req (Some e)]"
    by simp_all
next
  fix resp :: list_response and data1 before al rest w1 e
  let ?req = "ListKeysRequest \<lparr>key_spec = ''ALL'', limit = ''1000''\<rparr>"
  let ?arr = "{''default''} \<union> kd_key_alias ` set (key_details resp)"
  let ?w0 = "snd (sdk_call (list_keys cl) ?req w)"
  assume hyp: "act = CreateKey \<and> fst (list_keys cl ?req (cloud w)) = Inr resp \<and>
      (py_iter (py_get data1 ''key_aliases'' (PList [])) :: 'e exc + pyval list) = Inr before \<and>
      (py_iter (py_get data ''key_aliases'' (PList [])) :: 'e exc + pyval list) =
        Inr (before @ al # rest) \<and>
      createKey_process cl data1 a w = (Return RNone, w1) \<and>
      hashable al \<and> al \<noteq> PStr ''default'' \<and>
      al \<notin> PStr ` kd_key_alias ` set (key_details resp) \<and>
      fst (create_key cl (CreateKeyRequest \<lparr>key_alias = al\<rparr>) (cloud w1)) = Inl e"
  then have listed: "fst (list_keys cl ?req (cloud w)) = Inr resp"
    and it1: "(py_iter (py_get data1 ''key_aliases'' (PList [])) :: 'e exc + pyval list) = Inr before"
    and it: "(py_iter (py_get data ''key_aliases'' (PList [])) :: 'e exc + pyval list) =
        Inr (before @ al # rest)"
    and run1: "createKey_process cl data1 a w = (Return RNone, w1)"
    and h: "hashable al" and fresh: "al \<notin> PStr ` ?arr"
    and raises: "fst (create_key cl (CreateKeyRequest \<lparr>key_alias = al\<rparr>) (cloud w1)) = Inl e"
    by auto
  from run1 have "create_loop cl ?arr before ?w0 = (Return RNone, w1)"
    unfolding createKey_process_loop [OF listed it1] .
  then have "create_loop cl ?arr (before @ al # rest) ?w0 = create_loop cl ?arr (al # rest) w1"
    by (rule create_loop_append)
  also have "\<dots> = (Raise (ClientError e),
      w1\<lparr>cloud := snd (create_key cl (CreateKeyRequest \<lparr>key_alias = al\<rparr>) (cloud w1)),
         log := log w1 @ [Called (CreateKeyRequest \<lparr>key_alias = al\<rparr>) (Some e)]\<rparr>)"
    using h fresh raises by (rule create_loop_first_raises)
  finally have "createKey_process cl data a w = (Raise (ClientError e),
      w1\<lparr>cloud := snd (create_key cl (CreateKeyRequest \<lparr>key_alias = al\<rparr>) (cloud w1)),
         log := log w1 @ [Called (CreateKeyRequest \<lparr>key_alias = al\<rparr>) (Some e)]\<rparr>)"
    unfolding createKey_process_loop [OF listed it] .
  with assms hyp have "res = Raise (ClientError e) \<and>
      w' = w1\<lparr>cloud := snd (create_key cl (CreateKeyRequest \<lparr>key_alias = al\<rparr>) (cloud w1)),
             log := log w1 @ [Called (CreateKeyRequest \<lparr>key_alias = al\<rparr>) (Some e)]\<rparr>"
    by simp
  then show "res = Raise (ClientError e)"
    and "w' = w1\<lparr>cloud := snd (create_key cl (CreateKeyRequest \<lparr>key_alias = al\<rparr>) (cloud w1)),
             log := log w1 @ [Called (CreateKeyRequest \<lparr>key_alias = al\<rparr>) (Some e)]\<rparr>"
    by simp_all
qed

theorem sdk_exception_reraised_witness:
  "new_events (world_of plain_key)
       (snd (run_action CreateKey bad_client gen0 twice_policy 0 (world_of plain_key))) ! 1 =
     Called (CreateKeyRequest \<lparr>key_alias = PStr ''bbb''\<rparr>) (Some ''KMS.0005'') \<and>
   fst (run_action CreateKey bad_client gen0 twice_policy 0 (world_of plain_key)) =
     Raise (ClientError ''KMS.0005'') \<and>
   Suc 1 = length (new_events (world_of plain_key)
       (snd (run_action CreateKey bad_client gen0 twice_policy 0 (world_of plain_key)))) \<and>
   fst (enable_key_rotation bad_client
          (EnableKeyRotationRequest \<lparr>key_id = PStr ''k-1'', sequence = ''a''\<rparr>) 0) = Inl ''KMS.0001'' \<and>
   fst (run_action (PerKey RotationKey) bad_client gen0 Map.empty 0 (world_of plain_key)) =
     Raise (ClientError ''KMS.0001'') \<and>
   new_events (world_of plain_key)
       (snd (run_action (PerKey RotationKey) bad_client gen0 Map.empty 0 (world_of plain_key))) =
     [Called (EnableKeyRotationRequest \<lparr>key_id = PStr ''k-1'', sequence = ''a''\<rparr>) (Some ''KMS.0001'')] \<and>
   fst (list_keys down_client (ListKeysRequest \<lparr>key_spec = ''ALL'', limit = ''1000''\<rparr>) 0) =
     Inl ''KMS.0006'' \<and>
   fst (run_action CreateKey down_client gen0 twice_policy 0 (world_of plain_key)) =
     Raise (ClientError ''KMS.0006'') \<and>
   new_events (world_of plain_key)
       (snd (run_action CreateKey down_client gen0 twice_policy 0 (world_of plain_key))) =
     [Called (ListKeysRequest \<lparr>key_spec = ''ALL'', limit = ''1000''\<rparr>) (Some ''KMS.0006'')] \<and>
   createKey_process bad_client Map.empty 0 (world_of plain_key) =
     (Return RNone,
      \<lparr>store = (\<lambda>a. plain_key), cloud = 1, uuid_ctr = 0,
       log = [Called (ListKeysRequest \<lparr>key_spec = ''ALL'', limit = ''1000''\<rparr>) None]\<rparr>) \<and>
   fst (create_key bad_client (CreateKeyRequest \<lparr>key_alias = PStr ''bbb''\<rparr>) 1) = Inl ''KMS.0005'' \<and>
   snd (run_action CreateKey bad_client gen0 twice_policy 0 (world_of plain_key)) =
     \<lparr>store = (\<lambda>a. plain_key), cloud = 2, uuid_ctr = 0,
      log = [Called (ListKeysRequest \<lparr>key_spec = ''ALL'', limit = ''1000''\<rparr>) None,
             Called (CreateKeyRequest \<lparr>key_alias = PStr ''bbb''\<rparr>) (Some ''KMS.0005'')]\<rparr>"
proof -
  let ?w = "world_of plain_key"
  let ?lreq = "ListKeysRequest \<lparr>key_spec = ''ALL'', limit = ''1000''\<rparr>"
  let ?breq = "CreateKeyRequest \<lparr>key_alias = PStr ''bbb''\<rparr>"
  let ?rreq = "EnableKeyRotationRequest \<lparr>key_id = PStr ''k-1'', sequence = ''a''\<rparr>"
  let ?w1 = "\<lparr>store = (\<lambda>a. plain_key), cloud = 1::nat, uuid_ctr = 0,
       log = [Called ?lreq None :: (string, string) event]\<rparr>"
  let ?C = "run_action CreateKey bad_client gen0 twice_policy 0 ?w"
  let ?K = "run_action (PerKey RotationKey) bad_client gen0 Map.empty 0 ?w"
  let ?D = "run_action CreateKey down_client gen0 twice_policy 0 ?w"
  have C: "?C = (fst ?C, snd ?C)" and K: "?K = (fst ?K, snd ?K)" and D: "?D = (fst ?D, snd ?D)"
    by simp_all
  have w0: "cloud ?w = 0" "uuid_ctr ?w = 0" "gen0 0 = ''a''"
    by (simp_all add: world_of_def gen0_def)
  have evC: "new_events ?w (snd ?C) = [Called ?lreq None, Called ?breq (Some ''KMS.0005'')]"
    by (simp add: run_create_bad new_events_def world_of_log)
  have c1: "1 < length (new_events ?w (snd ?C)) \<and>
      new_events ?w (snd ?C) ! 1 = Called ?breq (Some ''KMS.0005'')"
    unfolding evC by simp
  have k1: "store ?w 0 ''key_id'' = Some (PStr ''k-1'')"
    and k2: "gated RotationKey \<longrightarrow> has_gate_fields (store ?w 0) \<and> eligible_spec (store ?w 0)"
    by (simp_all add: world_of_store plain_key_fields)
  have k3: "fst (method_of RotationKey bad_client
      (request_of RotationKey \<lparr>key_id = PStr ''k-1'', sequence = gen0 (uuid_ctr ?w)\<rparr>) (cloud ?w)) =
      Inl ''KMS.0001''"
    by (simp add: bad_client_def)
  have k4: "request_of RotationKey \<lparr>key_id = PStr ''k-1'', sequence = gen0 (uuid_ctr ?w)\<rparr> = ?rreq"
    by (simp add: w0)
  have d1: "fst (list_keys down_client ?lreq (cloud ?w)) = Inl ''KMS.0006''"
    by (simp add: down_client_def)
  have l1: "fst (list_keys bad_client ?lreq (cloud ?w)) = Inr listed"
    by (simp add: bad_client_def)
  have l2: "(py_iter (py_get Map.empty ''key_aliases'' (PList [])) :: string exc + pyval list) = Inr []"
    by (simp add: py_get_def)
  have l3: "(py_iter (py_get twice_policy ''key_aliases'' (PList [])) :: string exc + pyval list) =
      Inr ([] @ PStr ''bbb'' # [PStr ''prod'', PStr ''default'', PStr ''bbb''])"
    by (simp add: py_get_def twice_policy_def)
  have l4: "createKey_process bad_client Map.empty 0 ?w = (Return RNone, ?w1)"
    by (rule run_create_nothing)
  have l5: "hashable (PStr ''bbb'') \<and> PStr ''bbb'' \<noteq> PStr ''default'' \<and>
      PStr ''bbb'' \<notin> PStr ` kd_key_alias ` set (key_details listed)"
    by (simp add: listed_def)
  have l6: "fst (create_key bad_client ?breq (cloud ?w1)) = Inl ''KMS.0005''"
    by (simp add: bad_client_def)
  have hK: "PerKey RotationKey = PerKey RotationKey \<and> store ?w 0 ''key_id'' = Some (PStr ''k-1'') \<and>
      (gated RotationKey \<longrightarrow> has_gate_fields (store ?w 0) \<and> eligible_spec (store ?w 0)) \<and>
      fst (method_of RotationKey bad_client
        (request_of RotationKey \<lparr>key_id = PStr ''k-1'', sequence = gen0 (uuid_ctr ?w)\<rparr>) (cloud ?w)) =
        Inl ''KMS.0001''"
    using k1 k2 k3 by (intro conjI refl)
  have hD: "CreateKey = CreateKey \<and> fst (list_keys down_client ?lreq (cloud ?w)) = Inl ''KMS.0006''"
    using d1 by (intro conjI refl)
  have hL: "CreateKey = CreateKey \<and> fst (list_keys bad_client ?lreq (cloud ?w)) = Inr listed \<and>
      (py_iter (py_get Map.empty ''key_aliases'' (PList [])) :: string exc + pyval list) = Inr [] \<and>
      (py_iter (py_get twice_policy ''key_aliases'' (PList [])) :: string exc + pyval list) =
        Inr ([] @ PStr ''bbb'' # [PStr ''prod'', PStr ''default'', PStr ''bbb'']) \<and>
      createKey_process bad_client Map.empty 0 ?w = (Return RNone, ?w1) \<and>
      hashable (PStr ''bbb'') \<and> PStr ''bbb'' \<noteq> PStr ''default'' \<and>
      PStr ''bbb'' \<notin> PStr ` kd_key_alias ` set (key_details listed) \<and>
      fst (create_key bad_client ?breq (cloud ?w1)) = Inl ''KMS.0005''"
    using l1 l2 l3 l4 l5 l6 by (intro conjI refl) (rule l1 l2 l3 l4 l6 l5 [THEN conjunct1]
      l5 [THEN conjunct2, THEN conjunct1] l5 [THEN conjunct2, THEN conjunct2])+
  note T = sdk_exception_reraised
  note r1 = T [OF C, THEN conjunct1, rule_format, OF c1]
  note r2 = T [OF K, THEN conjunct2, THEN conjunct1, rule_format, OF hK, unfolded k4]
  note r3 = T [OF D, THEN conjunct2, THEN conjunct2, THEN conjunct1, rule_format, OF hD]
  note r4 = T [OF C, THEN conjunct2, THEN conjunct2, THEN conjunct2, rule_format, OF hL]
  have r4': "snd ?C = \<lparr>store = (\<lambda>a. plain_key), cloud = 2, uuid_ctr = 0,
      log = [Called ?lreq None, Called ?breq (Some ''KMS.0005'')]\<rparr>"
    unfolding r4 [THEN conjunct2] by (simp add: bad_client_def)
  have k3': "fst (enable_key_rotation bad_client ?rreq 0) = Inl ''KMS.0001''"
    and d1': "fst (list_keys down_client ?lreq 0) = Inl ''KMS.0006''"
    and l6': "fst (create_key bad_client ?breq 1) = Inl ''KMS.0005''"
    by (simp_all add: bad_client_def down_client_def)
  show ?thesis
    by (intro conjI) (rule c1 [THEN conjunct2] r1 [THEN conjunct1] r1 [THEN conjunct2] k3'
      r2 [THEN conjunct1] r2 [THEN conjunct2] d1' r3 [THEN conjunct1] r3 [THEN conjunct2]
      l4 l6' r4')+
qed

text \<open>
  C3, as stated, fails: only the two rotation actions have the checks. On a default key,
  which is not eligible, \<open>enable_key_rotation\<close> returns 0 without a call, while
  \<open>enable_key\<close> and \<open>disable_key\<close> send their request.
\<close>

theorem ungated_actions_counterexample:
  "\<not> eligible_spec default_key \<and>
   rotationKey_perform_action good_client gen0 0 (world_of default_key) =
     (Return (RInt 0), world_of default_key) \<and>
   calls_of (new_events (world_of default_key)
      (snd (enableKey_perform_action good_client gen0 0 (world_of default_key)))) =
     [EnableKeyRequest \<lparr>key_id = PStr ''k-2'', sequence = ''a''\<rparr>] \<and>
   calls_of (new_events (world_of default_key)
      (snd (disableKey_perform_action good_client gen0 0 (world_of default_key)))) =
     [DisableKeyRequest \<lparr>key_id = PStr ''k-2'', sequence = ''a''\<rparr>]"
  by (simp add: default_key_fields run_rotation_default run_enable_default run_disable_default
      new_events_def world_of_log)

text \<open>
  C3, amended. The two rotation actions are gated by the same checks and decide alike on
  every resource: one stops before its request exactly when the other does, and then
  both end in the same way. \<open>enable_key\<close> and \<open>disable_key\<close> have no check: a record
  with a \<open>key_id\<close> gets its request whatever its other fields. \<open>create-key\<close> has no
  check either: its first call is always issued.
\<close>

theorem rotation_gates_agree:
  "(new_events w (snd (rotationKey_perform_action cl gen a w)) = [] \<longleftrightarrow>
      new_events w (snd (disableRotationKey_perform_action cl gen a w)) = []) \<and>
   (new_events w (snd (rotationKey_perform_action cl gen a w)) = [] \<longrightarrow>
      rotationKey_perform_action cl gen a w = disableRotationKey_perform_action cl gen a w) \<and>
   (store w a ''key_id'' = Some kid \<longrightarrow>
      calls_of (new_events w (snd (enableKey_perform_action cl gen a w))) =
        [EnableKeyRequest \<lparr>key_id = kid, sequence = gen (uuid_ctr w)\<rparr>] \<and>
      calls_of (new_events w (snd (disableKey_perform_action cl gen a w))) =
        [DisableKeyRequest \<lparr>key_id = kid, sequence = gen (uuid_ctr w)\<rparr>]) \<and>
   hd (calls_of (new_events w (snd (createKey_process cl data a w)))) =
     ListKeysRequest \<lparr>key_spec = ''ALL'', limit = ''1000''\<rparr>"
proof -
  let ?R = "rotationKey_perform_action cl gen a w"
  let ?D = "disableRotationKey_perform_action cl gen a w"
  let ?iR = "issue_request RotationKey cl gen (store w a) w"
  let ?iD = "issue_request DisableRotationKey cl gen (store w a) w"
  have rotation: "(new_events w (snd ?R) = [] \<longleftrightarrow> new_events w (snd ?D) = []) \<and>
      (new_events w (snd ?R) = [] \<longrightarrow> ?R = ?D)"
  proof -
    from inline_checks_decide [of "store w a" w ?iR ?iD]
    have "?R = ?iR \<and> ?D = ?iD \<or> ?R = ?D"
      by (simp add: rotationKey_checks disableRotationKey_checks)
    then show ?thesis
    proof
      assume issued: "?R = ?iR \<and> ?D = ?iD"
      show ?thesis
      proof (cases "store w a ''key_id''")
        case None
        with issued show ?thesis
          by (simp add: issue_request_no_key)
      next
        case (Some kid)
        with issued show ?thesis
          by (simp add: issue_request_events)
      qed
    next
      assume "?R = ?D"
      then show ?thesis by simp
    qed
  qed
  have ungated: "calls_of (new_events w (snd (enableKey_perform_action cl gen a w))) =
        [EnableKeyRequest \<lparr>key_id = kid, sequence = gen (uuid_ctr w)\<rparr>] \<and>
      calls_of (new_events w (snd (disableKey_perform_action cl gen a w))) =
        [DisableKeyRequest \<lparr>key_id = kid, sequence = gen (uuid_ctr w)\<rparr>]"
    if "store w a ''key_id'' = Some kid"
    using that ungated_issue [of EnableKey cl gen a w] ungated_issue [of DisableKey cl gen a w]
    by (simp add: issue_request_events)
  have "hd (calls_of (new_events w (snd (createKey_process cl data a w)))) =
      ListKeysRequest \<lparr>key_spec = ''ALL'', limit = ''1000''\<rparr>"
  proof -
    obtain res w' where run: "createKey_process cl data a w = (res, w')"
      by (cases "createKey_process cl data a w")
    from createKey_process_events [OF run] obtain x es where
      "log w' = log w @ Called (ListKeysRequest \<lparr>key_spec = ''ALL'', limit = ''1000''\<rparr>) x # es"
      by blast
    then have "new_events w w' = Called (ListKeysRequest \<lparr>key_spec = ''ALL'', limit = ''1000''\<rparr>) x # es"
      by (rule new_events_append)
    with run show ?thesis by simp
  qed
  with rotation ungated show ?thesis
    by blast
qed

theorem rotation_gates_agree_witness:
  "new_events (world_of default_key)
      (snd (rotationKey_perform_action good_client gen0 0 (world_of default_key))) = [] \<and>
   rotationKey_perform_action good_client gen0 0 (world_of default_key) =
     disableRotationKey_perform_action good_client gen0 0 (world_of default_key) \<and>
   default_key ''key_id'' = Some (PStr ''k-2'') \<and>
   calls_of (new_events (world_of default_key)
      (snd (enableKey_perform_action good_client gen0 0 (world_of default_key)))) =
     [EnableKeyRequest \<lparr>key_id = PStr ''k-2'', sequence = gen0 0\<rparr>]"
proof -
  have stop: "new_events (world_of default_key)
      (snd (rotationKey_perform_action good_client gen0 0 (world_of default_key))) = []"
    by (simp add: run_rotation_default)
  have key: "store (world_of default_key) 0 ''key_id'' = Some (PStr ''k-2'')"
    by (simp add: world_of_store default_key_fields)
  have ctr: "uuid_ctr (world_of default_key) = 0"
    by (simp add: world_of_def)
  from rotation_gates_agree [of "world_of default_key" good_client gen0 0 "PStr ''k-2''" Map.empty]
    stop key
  show ?thesis
    by (simp add: ctr default_key_fields)
qed

text \<open>
  C4, as stated, fails twice. \<open>create-key\<close> builds its request from an alias of the
  policy, not from the resource, draws no identifier, and returns \<open>None\<close> although the
  service answered; and a rotation action on a record that does not pass the checks
  issues no request at all.
\<close>

theorem create_key_returns_none_counterexample:
  "run_action CreateKey good_client gen0 twice_policy 0 (world_of plain_key) =
     (Return RNone,
      \<lparr>store = (\<lambda>a. plain_key), cloud = 3, uuid_ctr = 0,
       log = [Called (ListKeysRequest \<lparr>key_spec = ''ALL'', limit = ''1000''\<rparr>) None,
              Called (CreateKeyRequest \<lparr>key_alias = PStr ''bbb''\<rparr>) None, Printed ''created'',
              Called (CreateKeyRequest \<lparr>key_alias = PStr ''bbb''\<rparr>) None, Printed ''created'']\<rparr>) \<and>
   run_action (PerKey RotationKey) good_client gen0 twice_policy 0 (world_of default_key) =
     (Return (RInt 0), world_of default_key)"
  by (simp add: run_create_twice run_rotation_default)

text \<open>
  C4, amended. For a resource with a \<open>key_id\<close> (which, for the two rotation actions, also
  carries the gate fields and passes the checks), each of the four key actions sends
  exactly one request, of its own class, whose body holds the resource's \<open>key_id\<close> and the
  next identifier of the generator, which is used up; and when the call answers, the
  action returns that answer. \<open>create-key\<close> draws no identifier and never returns a
  response: when the list-keys call answers and \<open>key_aliases\<close> is a list of hashable
  values, its run is the list-keys call followed by \<open>create_run\<close> on the aliases to
  create, that is, one request per such alias, built from the alias alone, each response
  printed, the outcome \<open>None\<close> or the exception of the call that raised.
\<close>

theorem key_request_built_and_returned:
  fixes cl :: "('s, 'e, 'r) client"
  assumes "store w a ''key_id'' = Some kid"
    and "gated k \<longrightarrow> has_gate_fields (store w a) \<and> eligible_spec (store w a)"
  shows "new_events w (snd (perform_action k cl gen a w)) =
       [Called (request_of k \<lparr>key_id = kid, sequence = gen (uuid_ctr w)\<rparr>)
          (case fst (method_of k cl (request_of k \<lparr>key_id = kid, sequence = gen (uuid_ctr w)\<rparr>)
                       (cloud w)) of
             Inl e \<Rightarrow> Some e | Inr r \<Rightarrow> None)] \<and>
     uuid_ctr (snd (perform_action k cl gen a w)) = Suc (uuid_ctr w) \<and>
     (\<forall>r. fst (method_of k cl (request_of k \<lparr>key_id = kid, sequence = gen (uuid_ctr w)\<rparr>) (cloud w)) =
            Inr r \<longrightarrow>
          fst (perform_action k cl gen a w) = Return (RResp r)) \<and>
     uuid_ctr (snd (createKey_process cl data a w)) = uuid_ctr w \<and>
     (\<forall>r. fst (createKey_process cl data a w) \<noteq> Return (RResp r)) \<and>
     (\<forall>resp aliases.
        fst (list_keys cl (ListKeysRequest \<lparr>key_spec = ''ALL'', limit = ''1000''\<rparr>) (cloud w)) =
          Inr resp \<and>
        (py_iter (py_get data ''key_aliases'' (PList [])) :: 'e exc + pyval list) = Inr aliases \<and>
        list_all hashable aliases \<longrightarrow>
        createKey_process cl data a w =
          (case create_run cl (aliases_to_create aliases (key_details resp))
                  (snd (list_keys cl (ListKeysRequest \<lparr>key_spec = ''ALL'', limit = ''1000''\<rparr>) (cloud w))) of
             (out, c, es) \<Rightarrow>
               (out, w\<lparr>cloud := c,
                      log := log w @
                        Called (ListKeysRequest \<lparr>key_spec = ''ALL'', limit = ''1000''\<rparr>) None # es\<rparr>)))"
proof -
  have run: "perform_action k cl gen a w = issue_request k cl gen (store w a) w"
  proof (cases "gated k")
    case True
    with assms(2) show ?thesis by (simp add: gated_closed)
  next
    case False
    then show ?thesis by (rule ungated_issue)
  qed
  have events: "new_events w (snd (perform_action k cl gen a w)) =
       [Called (request_of k \<lparr>key_id = kid, sequence = gen (uuid_ctr w)\<rparr>)
          (case fst (method_of k cl (request_of k \<lparr>key_id = kid, sequence = gen (uuid_ctr w)\<rparr>)
                       (cloud w)) of
             Inl e \<Rightarrow> Some e | Inr r \<Rightarrow> None)]"
    by (simp add: run issue_request_events assms(1))
  have drawn: "uuid_ctr (snd (perform_action k cl gen a w)) = Suc (uuid_ctr w)"
    by (simp add: run issue_request_def assms(1) Let_def)
  have returned: "\<forall>r. fst (method_of k cl (request_of k \<lparr>key_id = kid, sequence = gen (uuid_ctr w)\<rparr>) (cloud w)) =
        Inr r \<longrightarrow> fst (perform_action k cl gen a w) = Return (RResp r)"
    by (simp add: run issue_request_def assms(1) Let_def)
  have create_uuid: "uuid_ctr (snd (createKey_process cl data a w)) = uuid_ctr w"
    by (simp add: createKey_process_unfold create_loop_uuid sdk_call_effect split: sum.splits)
  have create_result: "\<forall>r. fst (createKey_process cl data a w) \<noteq> Return (RResp r)"
    by (simp add: createKey_process_unfold create_loop_no_response split: sum.splits)
  have create_built: "\<forall>resp aliases.
        fst (list_keys cl (ListKeysRequest \<lparr>key_spec = ''ALL'', limit = ''1000''\<rparr>) (cloud w)) =
          Inr resp \<and>
        (py_iter (py_get data ''key_aliases'' (PList [])) :: 'e exc + pyval list) = Inr aliases \<and>
        list_all hashable aliases \<longrightarrow>
        createKey_process cl data a w =
          (case create_run cl (aliases_to_create aliases (key_details resp))
                  (snd (list_keys cl (ListKeysRequest \<lparr>key_spec = ''ALL'', limit = ''1000''\<rparr>) (cloud w))) of
             (out, c, es) \<Rightarrow>
               (out, w\<lparr>cloud := c,
                      log := log w @
                        Called (ListKeysRequest \<lparr>key_spec = ''ALL'', limit = ''1000''\<rparr>) None # es\<rparr>))"
  proof (intro allI impI)
    fix resp aliases
    assume hyp: "fst (list_keys cl (ListKeysRequest \<lparr>key_spec = ''ALL'', limit = ''1000''\<rparr>) (cloud w)) =
          Inr resp \<and>
        (py_iter (py_get data ''key_aliases'' (PList [])) :: 'e exc + pyval list) = Inr aliases \<and>
        list_all hashable aliases"
    show "createKey_process cl data a w =
          (case create_run cl (aliases_to_create aliases (key_details resp))
                  (snd (list_keys cl (ListKeysRequest \<lparr>key_spec = ''ALL'', limit = ''1000''\<rparr>) (cloud w))) of
             (out, c, es) \<Rightarrow>
               (out, w\<lparr>cloud := c,
                      log := log w @
                        Called (ListKeysRequest \<lparr>key_spec = ''ALL'', limit = ''1000''\<rparr>) None # es\<rparr>))"
      by (rule createKey_process_is_run)
         (rule hyp [THEN conjunct1] hyp [THEN conjunct2, THEN conjunct1]
            hyp [THEN conjunct2, THEN conjunct2])+
  qed
  show ?thesis
    by (intro conjI) (rule events drawn returned create_uuid create_result create_built)+
qed

theorem key_request_built_and_returned_witness:
  "store (world_of plain_key) 0 ''key_id'' = Some (PStr ''k-1'') \<and>
   has_gate_fields (store (world_of plain_key) 0) \<and> eligible_spec (store (world_of plain_key) 0) \<and>
   new_events (world_of plain_key) (snd (perform_action RotationKey good_client gen0 0 (world_of plain_key))) =
     [Called (EnableKeyRotationRequest \<lparr>key_id = PStr ''k-1'', sequence = ''a''\<rparr>) None] \<and>
   uuid_ctr (snd (perform_action RotationKey good_client gen0 0 (world_of plain_key))) = 1 \<and>
   fst (perform_action RotationKey good_client gen0 0 (world_of plain_key)) =
     Return (RResp ''rotation on'') \<and>
   aliases_to_create [PStr ''bbb'', PStr ''prod'', PStr ''default'', PStr ''bbb''] (key_details listed) =
     [PStr ''bbb'', PStr ''bbb''] \<and>
   create_run good_client [PStr ''bbb'', PStr ''bbb''] 1 =
     (Return RNone, 3,
      [Called (CreateKeyRequest \<lparr>key_alias = PStr ''bbb''\<rparr>) None, Printed ''created'',
       Called (CreateKeyRequest \<lparr>key_alias = PStr ''bbb''\<rparr>) None, Printed ''created'']) \<and>
   createKey_process good_client twice_policy 0 (world_of plain_key) =
     (Return RNone,
      \<lparr>store = (\<lambda>a. plain_key), cloud = 3, uuid_ctr = 0,
       log = [Called (ListKeysRequest \<lparr>key_spec = ''ALL'', limit = ''1000''\<rparr>) None,
              Called (CreateKeyRequest \<lparr>key_alias = PStr ''bbb''\<rparr>) None, Printed ''created'',
              Called (CreateKeyRequest \<lparr>key_alias = PStr ''bbb''\<rparr>) None, Printed ''created'']\<rparr>)"
proof -
  let ?w = "world_of plain_key"
  let ?lreq = "ListKeysRequest \<lparr>key_spec = ''ALL'', limit = ''1000''\<rparr>"
  let ?breq = "CreateKeyRequest \<lparr>key_alias = PStr ''bbb''\<rparr>"
  let ?aliases = "[PStr ''bbb'', PStr ''prod'', PStr ''default'', PStr ''bbb'']"
  have key: "store ?w 0 ''key_id'' = Some (PStr ''k-1'')"
    and gate: "gated RotationKey \<longrightarrow> has_gate_fields (store ?w 0) \<and> eligible_spec (store ?w 0)"
    and fields: "has_gate_fields (store ?w 0)" "eligible_spec (store ?w 0)"
    by (simp_all add: world_of_store plain_key_fields)
  have answer: "fst (method_of RotationKey good_client
      (request_of RotationKey \<lparr>key_id = PStr ''k-1'', sequence = gen0 (uuid_ctr ?w)\<rparr>)
      (cloud ?w)) = Inr ''rotation on''"
    by (simp add: good_client_def)
  have ctr: "uuid_ctr ?w = 0" "gen0 0 = ''a''" "cloud ?w = 0"
    by (simp_all add: world_of_def gen0_def)
  have todo: "aliases_to_create ?aliases (key_details listed) = [PStr ''bbb'', PStr ''bbb'']"
    by (simp add: aliases_to_create_def listed_def)
  have ran: "create_run good_client [PStr ''bbb'', PStr ''bbb''] 1 =
     (Return RNone, 3, [Called ?breq None, Printed ''created'', Called ?breq None, Printed ''created''])"
    by (simp add: good_client_def eval_nat_numeral)
  have hyp: "fst (list_keys good_client ?lreq (cloud ?w)) = Inr listed \<and>
      (py_iter (py_get twice_policy ''key_aliases'' (PList [])) :: string exc + pyval list) =
        Inr ?aliases \<and>
      list_all hashable ?aliases"
    by (simp add: good_client_def py_get_def twice_policy_def)
  have after: "snd (list_keys good_client ?lreq (cloud ?w)) = 1"
    by (simp add: good_client_def ctr)
  note T = key_request_built_and_returned [OF key gate, of good_client gen0 twice_policy]
  note t1 = T [THEN conjunct1]
  note t2 = T [THEN conjunct2, THEN conjunct1]
  note t3 = T [THEN conjunct2, THEN conjunct2, THEN conjunct1, rule_format, OF answer]
  note t6 = T [THEN conjunct2, THEN conjunct2, THEN conjunct2, THEN conjunct2, THEN conjunct2,
    rule_format, OF hyp]
  have e1: "new_events ?w (snd (perform_action RotationKey good_client gen0 0 ?w)) =
      [Called (EnableKeyRotationRequest \<lparr>key_id = PStr ''k-1'', sequence = ''a''\<rparr>) None]"
    using t1 answer by (simp add: ctr)
  have e2: "uuid_ctr (snd (perform_action RotationKey good_client gen0 0 ?w)) = 1"
    using t2 by (simp add: ctr)
  have e6: "createKey_process good_client twice_policy 0 ?w =
     (Return RNone,
      \<lparr>store = (\<lambda>a. plain_key), cloud = 3, uuid_ctr = 0,
       log = [Called ?lreq None, Called ?breq None, Printed ''created'',
              Called ?breq None, Printed ''created'']\<rparr>)"
    unfolding t6 todo after ran by (simp add: world_of_def)
  show ?thesis
    by (intro conjI) (rule key fields e1 e2 t3 todo ran e6)+
qed

text \<open>
  C5. One run of \<open>create-key\<close> issues exactly one list-keys call, whatever the resources
  and however many keys the service lists: among the calls of the run, the list-keys
  calls are the single request with key spec \<open>"ALL"\<close> and limit \<open>"1000"\<close>, and it is
  the first call.
\<close>

theorem list_keys_once:
  "filter is_list_keys (calls_of (new_events w (snd (createKey_process cl data a w)))) =
     [ListKeysRequest \<lparr>key_spec = ''ALL'', limit = ''1000''\<rparr>] \<and>
   hd (calls_of (new_events w (snd (createKey_process cl data a w)))) =
     ListKeysRequest \<lparr>key_spec = ''ALL'', limit = ''1000''\<rparr>"
proof -
  obtain res w' where run: "createKey_process cl data a w = (res, w')"
    by (cases "createKey_process cl data a w")
  from createKey_process_events [OF run] obtain x es where
    es: "log w' = log w @ Called (ListKeysRequest \<lparr>key_spec = ''ALL'', limit = ''1000''\<rparr>) x # es"
      "list_all is_create_key (calls_of es)"
    by blast
  have "new_events w w' = Called (ListKeysRequest \<lparr>key_spec = ''ALL'', limit = ''1000''\<rparr>) x # es"
    using es(1) by (rule new_events_append)
  with creates_no_list [OF es(2)] run show ?thesis
    by simp
qed

theorem list_keys_once_witness:
  "calls_of (new_events (world_of plain_key)
      (snd (createKey_process good_client twice_policy 0 (world_of plain_key)))) =
     [ListKeysRequest \<lparr>key_spec = ''ALL'', limit = ''1000''\<rparr>,
      CreateKeyRequest \<lparr>key_alias = PStr ''bbb''\<rparr>, CreateKeyRequest \<lparr>key_alias = PStr ''bbb''\<rparr>] \<and>
   filter is_list_keys (calls_of (new_events (world_of plain_key)
      (snd (createKey_process good_client twice_policy 0 (world_of plain_key))))) =
     [ListKeysRequest \<lparr>key_spec = ''ALL'', limit = ''1000''\<rparr>]"
proof -
  have "calls_of (new_events (world_of plain_key)
      (snd (createKey_process good_client twice_policy 0 (world_of plain_key)))) =
     [ListKeysRequest \<lparr>key_spec = ''ALL'', limit = ''1000''\<rparr>,
      CreateKeyRequest \<lparr>key_alias = PStr ''bbb''\<rparr>, CreateKeyRequest \<lparr>key_alias = PStr ''bbb''\<rparr>]"
    by (simp add: run_create_twice new_events_def world_of_log)
  with list_keys_once [of "world_of plain_key" good_client twice_policy 0] show ?thesis
    by blast
qed

text \<open>
  C6. The module registers exactly: the resource type \<open>kms\<close>; in its action registry
  the names \<open>enable_key_rotation\<close>, \<open>disable_key_rotation\<close>, \<open>enable_key\<close>,
  \<open>disable_key\<close> and \<open>create-key\<close>; in its filter registry the name
  \<open>all_keys_disable\<close>. Loaded on empty registries these are all the names there are,
  each bound to its class; every schema carries the name of its registration; the
  schema of \<open>create-key\<close> has the properties \<open>key_aliases\<close> (an array) and \<open>obs_url\<close>
  (a string), and the other four action schemas have none.
\<close>

theorem registered_surface:
  "registered_names Resources = [''kms''] \<and>
   registered_names Kms_action_registry =
     [''enable_key_rotation'', ''disable_key_rotation'', ''enable_key'', ''disable_key'',
      ''create-key''] \<and>
   registered_names Kms_filter_registry = [''all_keys_disable''] \<and>
   dom (load_module regs) = dom regs \<union>
     {(Resources, ''kms''), (Kms_action_registry, ''enable_key_rotation''),
      (Kms_action_registry, ''disable_key_rotation''), (Kms_action_registry, ''enable_key''),
      (Kms_action_registry, ''disable_key''), (Kms_action_registry, ''create-key''),
      (Kms_filter_registry, ''all_keys_disable'')} \<and>
   map (load_module Map.empty \<circ> Pair Kms_action_registry) (registered_names Kms_action_registry) =
     [Some (Action (PerKey RotationKey)), Some (Action (PerKey DisableRotationKey)),
      Some (Action (PerKey EnableKey)), Some (Action (PerKey DisableKey)), Some (Action CreateKey)] \<and>
   load_module Map.empty (Resources, ''kms'') = Some Kms \<and>
   load_module Map.empty (Kms_filter_registry, ''all_keys_disable'') = Some InstanceDisable \<and>
   list_all (\<lambda>(r, name, p). case schema p of None \<Rightarrow> p = Kms | Some sc \<Rightarrow> type_name sc = name)
     module_registrations \<and>
   map_option properties (schema (Action CreateKey)) =
     Some [(''key_aliases'', JArray), (''obs_url'', JString)] \<and>
   map (\<lambda>k. map_option properties (schema (Action (PerKey k))))
     [RotationKey, DisableRotationKey, EnableKey, DisableKey] = [Some [], Some [], Some [], Some []]"
proof -
  have names: "registered_names Resources = [''kms'']"
    "registered_names Kms_action_registry =
       [''enable_key_rotation'', ''disable_key_rotation'', ''enable_key'', ''disable_key'',
        ''create-key'']"
    "registered_names Kms_filter_registry = [''all_keys_disable'']"
    by (simp_all add: registered_names_def module_registrations_def)
  have loaded: "load_module Map.empty =
      [(Resources, ''kms'') \<mapsto> Kms,
       (Kms_action_registry, ''enable_key_rotation'') \<mapsto> Action (PerKey RotationKey),
       (Kms_action_registry, ''disable_key_rotation'') \<mapsto> Action (PerKey DisableRotationKey),
       (Kms_action_registry, ''enable_key'') \<mapsto> Action (PerKey EnableKey),
       (Kms_action_registry, ''disable_key'') \<mapsto> Action (PerKey DisableKey),
       (Kms_action_registry, ''create-key'') \<mapsto> Action CreateKey,
       (Kms_filter_registry, ''all_keys_disable'') \<mapsto> InstanceDisable]"
    by (simp add: load_module_def module_registrations_def register_def)
  have domain: "dom (load_module regs) = dom regs \<union>
     {(Resources, ''kms''), (Kms_action_registry, ''enable_key_rotation''),
      (Kms_action_registry, ''disable_key_rotation''), (Kms_action_registry, ''enable_key''),
      (Kms_action_registry, ''disable_key''), (Kms_action_registry, ''create-key''),
      (Kms_filter_registry, ''all_keys_disable'')}"
  proof -
    have "load_module regs =
      regs((Resources, ''kms'') \<mapsto> Kms,
       (Kms_action_registry, ''enable_key_rotation'') \<mapsto> Action (PerKey RotationKey),
       (Kms_action_registry, ''disable_key_rotation'') \<mapsto> Action (PerKey DisableRotationKey),
       (Kms_action_registry, ''enable_key'') \<mapsto> Action (PerKey EnableKey),
       (Kms_action_registry, ''disable_key'') \<mapsto> Action (PerKey DisableKey),
       (Kms_action_registry, ''create-key'') \<mapsto> Action CreateKey,
       (Kms_filter_registry, ''all_keys_disable'') \<mapsto> InstanceDisable)"
      by (simp only: load_module_def module_registrations_def register_def foldl.simps case_prod_conv)
    then show ?thesis
      by (simp only: dom_seven_updates)
  qed
  have bound: "map (load_module Map.empty \<circ> Pair Kms_action_registry)
      (registered_names Kms_action_registry) =
     [Some (Action (PerKey RotationKey)), Some (Action (PerKey DisableRotationKey)),
      Some (Action (PerKey EnableKey)), Some (Action (PerKey DisableKey)), Some (Action CreateKey)]"
    "load_module Map.empty (Resources, ''kms'') = Some Kms"
    "load_module Map.empty (Kms_filter_registry, ''all_keys_disable'') = Some InstanceDisable"
    unfolding loaded names by simp_all
  have schemas: "list_all (\<lambda>(r, name, p). case schema p of None \<Rightarrow> p = Kms | Some sc \<Rightarrow> type_name sc = name)
      module_registrations"
    "map_option properties (schema (Action CreateKey)) =
       Some [(''key_aliases'', JArray), (''obs_url'', JString)]"
    "map (\<lambda>k. map_option properties (schema (Action (PerKey k))))
       [RotationKey, DisableRotationKey, EnableKey, DisableKey] = [Some [], Some [], Some [], Some []]"
    by (simp_all add: module_registrations_def)
  from names domain bound schemas show ?thesis
    by blast
qed

theorem registered_surface_witness:
  "(Kms_action_registry, ''create-key'') \<in> dom (load_module Map.empty) \<and>
   (Kms_action_registry, ''delete-key'') \<notin> dom (load_module Map.empty)"
  using registered_surface [of Map.empty] by simp

text \<open>
  C7, as stated, fails for \<open>create-key\<close>: a policy that lists the alias \<open>bbb\<close> twice makes
  one run send the same create-key request twice.
\<close>

theorem create_key_twice_counterexample:
  "filter is_create_key (calls_of (new_events (world_of plain_key)
      (snd (run_action CreateKey good_client gen0 twice_policy 0 (world_of plain_key))))) =
     [CreateKeyRequest \<lparr>key_alias = PStr ''bbb''\<rparr>, CreateKeyRequest \<lparr>key_alias = PStr ''bbb''\<rparr>] \<and>
   \<not> length (filter is_create_key (calls_of (new_events (world_of plain_key)
      (snd (run_action CreateKey good_client gen0 twice_policy 0 (world_of plain_key)))))) \<le> 1"
  by (simp add: run_create_twice new_events_def world_of_log)

text \<open>
  C7, amended. In one run, each of the four key actions issues at most one request (it
  has at most one event at all); \<open>create-key\<close> issues at most one create-key request for
  each element of \<open>key_aliases\<close>: its create-key requests are, in order, requests for a
  subsequence of the elements, so there are no more of them than elements; and for all
  five, a call that raises is the last event of the run, so no request follows an
  exception.
\<close>

theorem request_not_reissued:
  fixes cl :: "('s, 'e, 'r) client"
  assumes "run_action act cl gen data a w = (res, w')"
  shows "(act \<noteq> CreateKey \<longrightarrow> length (new_events w w') \<le> 1) \<and>
     (act = CreateKey \<longrightarrow>
        length (filter is_create_key (calls_of (new_events w w'))) \<le>
          (case py_iter (py_get data ''key_aliases'' (PList [])) :: 'e exc + pyval list of
             Inl x \<Rightarrow> 0 | Inr aliases \<Rightarrow> length aliases)) \<and>
     (\<forall>i. i < length (new_events w w') \<and> raised (new_events w w' ! i) \<longrightarrow>
        Suc i = length (new_events w w')) \<and>
     (act = CreateKey \<longrightarrow>
        subseq (filter is_create_key (calls_of (new_events w w')))
          (map (\<lambda>alias. CreateKeyRequest \<lparr>key_alias = alias\<rparr>)
             (case py_iter (py_get data ''key_aliases'' (PList [])) :: 'e exc + pyval list of
                Inl x \<Rightarrow> [] | Inr aliases \<Rightarrow> aliases)))"
proof (intro conjI impI allI)
  assume "act \<noteq> CreateKey"
  then obtain k where "act = PerKey k" by (cases act) auto
  with assms have "perform_action k cl gen a w = (res, w')" by simp
  from perform_action_events [OF this] obtain es where "log w' = log w @ es" "length es \<le> 1"
    by blast
  then show "length (new_events w w') \<le> 1"
    by (simp add: new_events_append)
next
  assume "act = CreateKey"
  with assms have "createKey_process cl data a w = (res, w')" by simp
  from createKey_process_events [OF this] obtain x es where
    es: "log w' = log w @ Called (ListKeysRequest \<lparr>key_spec = ''ALL'', limit = ''1000''\<rparr>) x # es"
      "list_all is_create_key (calls_of es)"
      "length (calls_of es) \<le>
        (case py_iter (py_get data ''key_aliases'' (PList [])) :: 'e exc + pyval list of
           Inl x \<Rightarrow> 0 | Inr aliases \<Rightarrow> length aliases)"
    by blast
  have "new_events w w' = Called (ListKeysRequest \<lparr>key_spec = ''ALL'', limit = ''1000''\<rparr>) x # es"
    using es(1) by (rule new_events_append)
  then have "filter is_create_key (calls_of (new_events w w')) = calls_of es"
    by (simp add: creates_filter [OF es(2)])
  with es(3) show "length (filter is_create_key (calls_of (new_events w w'))) \<le>
      (case py_iter (py_get data ''key_aliases'' (PList [])) :: 'e exc + pyval list of
         Inl x \<Rightarrow> 0 | Inr aliases \<Rightarrow> length aliases)"
    by simp
next
  fix i
  assume i: "i < length (new_events w w') \<and> raised (new_events w w' ! i)"
  from run_action_events [OF assms] obtain es where
    es: "log w' = log w @ es" "list_all (\<lambda>e. \<not> raised e) (butlast es)"
    by blast
  have "new_events w w' = es"
    using es(1) by (rule new_events_append)
  with i raised_only_last [OF es(2), of i] show "Suc i = length (new_events w w')"
    by simp
next
  assume "act = CreateKey"
  with assms have "createKey_process cl data a w = (res, w')" by simp
  then show "subseq (filter is_create_key (calls_of (new_events w w')))
      (map (\<lambda>alias. CreateKeyRequest \<lparr>key_alias = alias\<rparr>)
         (case py_iter (py_get data ''key_aliases'' (PList [])) :: 'e exc + pyval list of
            Inl x \<Rightarrow> [] | Inr aliases \<Rightarrow> aliases))"
    by (rule createKey_process_subseq)
qed

theorem request_not_reissued_witness:
  "length (new_events (world_of plain_key)
      (snd (run_action (PerKey DisableKey) good_client gen0 twice_policy 0 (world_of plain_key)))) = 1 \<and>
   length (filter is_create_key (calls_of (new_events (world_of plain_key)
      (snd (run_action CreateKey bad_client gen0 twice_policy 0 (world_of plain_key)))))) = 1 \<and>
   raised (new_events (world_of plain_key)
      (snd (run_action CreateKey bad_client gen0 twice_policy 0 (world_of plain_key))) ! 1) \<and>
   Suc 1 = length (new_events (world_of plain_key)
      (snd (run_action CreateKey bad_client gen0 twice_policy 0 (world_of plain_key)))) \<and>
   filter is_create_key (calls_of (new_events (world_of plain_key)
      (snd (run_action CreateKey good_client gen0 twice_policy 0 (world_of plain_key))))) =
     [CreateKeyRequest \<lparr>key_alias = PStr ''bbb''\<rparr>, CreateKeyRequest \<lparr>key_alias = PStr ''bbb''\<rparr>] \<and>
   subseq [CreateKeyRequest \<lparr>key_alias = PStr ''bbb''\<rparr>, CreateKeyRequest \<lparr>key_alias = PStr ''bbb''\<rparr>]
     (map (\<lambda>alias. CreateKeyRequest \<lparr>key_alias = alias\<rparr>)
        [PStr ''bbb'', PStr ''prod'', PStr ''default'', PStr ''bbb''])"
proof -
  let ?w = "world_of plain_key"
  let ?D = "run_action (PerKey DisableKey) good_client gen0 twice_policy 0 ?w"
  let ?C = "run_action CreateKey bad_client gen0 twice_policy 0 ?w"
  let ?G = "run_action CreateKey good_client gen0 twice_policy 0 ?w"
  have D: "?D = (fst ?D, snd ?D)" and C: "?C = (fst ?C, snd ?C)" and G: "?G = (fst ?G, snd ?G)"
    by simp_all
  have evD: "new_events ?w (snd ?D) =
      [Called (DisableKeyRequest \<lparr>key_id = PStr ''k-1'', sequence = ''a''\<rparr>) None]"
    by (simp add: run_disable_plain new_events_def world_of_log)
  have evC: "new_events ?w (snd ?C) =
      [Called (ListKeysRequest \<lparr>key_spec = ''ALL'', limit = ''1000''\<rparr>) None,
       Called (CreateKeyRequest \<lparr>key_alias = PStr ''bbb''\<rparr>) (Some ''KMS.0005'')]"
    by (simp add: run_create_bad new_events_def world_of_log)
  have evG: "filter is_create_key (calls_of (new_events ?w (snd ?G))) =
      [CreateKeyRequest \<lparr>key_alias = PStr ''bbb''\<rparr>, CreateKeyRequest \<lparr>key_alias = PStr ''bbb''\<rparr>]"
    by (simp add: run_create_twice new_events_def world_of_log)
  have it: "(py_iter (py_get twice_policy ''key_aliases'' (PList [])) :: string exc + pyval list) =
      Inr [PStr ''bbb'', PStr ''prod'', PStr ''default'', PStr ''bbb'']"
    by (simp add: py_get_def twice_policy_def)
  have r: "1 < length (new_events ?w (snd ?C)) \<and> raised (new_events ?w (snd ?C) ! 1)"
    unfolding evC by simp
  have lD: "length (new_events ?w (snd ?D)) = 1"
    and lC: "length (filter is_create_key (calls_of (new_events ?w (snd ?C)))) = 1"
    unfolding evD evC by simp_all
  note T = request_not_reissued
  note last = T [OF C, THEN conjunct2, THEN conjunct2, THEN conjunct1, rule_format, OF r]
  note sub = T [OF G, THEN conjunct2, THEN conjunct2, THEN conjunct2, rule_format, OF refl,
    unfolded evG it sum.case]
  show ?thesis
    by (intro conjI) (rule lD lC r [THEN conjunct2] last evG sub)+
qed

text \<open>
  C8. When the list-keys call answers and \<open>key_aliases\<close> can be iterated, the create-key
  requests of a run are, in order, requests for the elements of \<open>key_aliases\<close> that are
  neither \<open>"default"\<close> nor an alias of the list-keys response: a prefix of them in any
  run (an exception ends the run), all of them when the run returns, and the run does
  return when every element can be hashed and \<open>create_key\<close> never raises. Nothing is
  added to the set of known aliases, so an alias listed twice is requested twice.
\<close>

theorem create_key_requests:
  fixes cl :: "('s, 'e, 'r) client"
  assumes "createKey_process cl data a w = (res, w')"
    and "fst (list_keys cl (ListKeysRequest \<lparr>key_spec = ''ALL'', limit = ''1000''\<rparr>) (cloud w)) =
        Inr resp"
    and "(py_iter (py_get data ''key_aliases'' (PList [])) :: 'e exc + pyval list) = Inr aliases"
  shows "prefix (filter is_create_key (calls_of (new_events w w')))
        (map (\<lambda>alias. CreateKeyRequest \<lparr>key_alias = alias\<rparr>)
           (aliases_to_create aliases (key_details resp))) \<and>
     (res = Return RNone \<longrightarrow>
        filter is_create_key (calls_of (new_events w w')) =
          map (\<lambda>alias. CreateKeyRequest \<lparr>key_alias = alias\<rparr>)
            (aliases_to_create aliases (key_details resp))) \<and>
     (list_all hashable aliases \<and> (\<forall>req c. \<exists>r. fst (create_key cl req c) = Inr r) \<longrightarrow>
        res = Return RNone)"
proof -
  let ?req = "ListKeysRequest \<lparr>key_spec = ''ALL'', limit = ''1000''\<rparr>"
  let ?want = "map (\<lambda>alias. CreateKeyRequest \<lparr>key_alias = alias\<rparr>)
      (aliases_to_create aliases (key_details resp))"
  from createKey_process_creates [OF assms] obtain es where
    es: "log w' = log w @ Called ?req None # es" "prefix (calls_of es) ?want"
      "res = Return RNone \<longrightarrow> calls_of es = ?want"
    by blast
  have "list_all is_create_key (calls_of es)"
    using prefix_list_all [OF es(2) creates_all] .
  then have "filter is_create_key (calls_of es) = calls_of es"
    by (rule creates_filter)
  moreover have "new_events w w' = Called ?req None # es"
    using es(1) by (rule new_events_append)
  ultimately have calls: "filter is_create_key (calls_of (new_events w w')) = calls_of es"
    by simp
  have returns: "res = Return RNone"
    if "list_all hashable aliases \<and> (\<forall>req c. \<exists>r. fst (create_key cl req c) = Inr r)"
  proof -
    from that have "fst (create_loop cl ({''default''} \<union> kd_key_alias ` set (key_details resp)) aliases
        (snd (sdk_call (list_keys cl) ?req w))) = Return RNone"
      by (simp add: create_loop_returns)
    with assms show ?thesis
      by (simp add: createKey_process_unfold)
  qed
  from es(2,3) returns show ?thesis
    unfolding calls by blast
qed

theorem create_key_requests_witness:
  "fst (list_keys good_client (ListKeysRequest \<lparr>key_spec = ''ALL'', limit = ''1000''\<rparr>) 0) = Inr listed \<and>
   (py_iter (py_get twice_policy ''key_aliases'' (PList [])) :: string exc + pyval list) =
     Inr [PStr ''bbb'', PStr ''prod'', PStr ''default'', PStr ''bbb''] \<and>
   aliases_to_create [PStr ''bbb'', PStr ''prod'', PStr ''default'', PStr ''bbb''] (key_details listed) =
     [PStr ''bbb'', PStr ''bbb''] \<and>
   fst (createKey_process good_client twice_policy 0 (world_of plain_key)) = Return RNone \<and>
   filter is_create_key (calls_of (new_events (world_of plain_key)
       (snd (createKey_process good_client twice_policy 0 (world_of plain_key))))) =
     [CreateKeyRequest \<lparr>key_alias = PStr ''bbb''\<rparr>, CreateKeyRequest \<lparr>key_alias = PStr ''bbb''\<rparr>]"
proof -
  let ?w = "world_of plain_key"
  let ?R = "createKey_process good_client twice_policy 0 ?w"
  let ?aliases = "[PStr ''bbb'', PStr ''prod'', PStr ''default'', PStr ''bbb'']"
  have R: "?R = (fst ?R, snd ?R)" by simp
  have l: "fst (list_keys good_client (ListKeysRequest \<lparr>key_spec = ''ALL'', limit = ''1000''\<rparr>)
      (cloud ?w)) = Inr listed"
    by (simp add: good_client_def)
  have l0: "fst (list_keys good_client (ListKeysRequest \<lparr>key_spec = ''ALL'', limit = ''1000''\<rparr>) 0) =
      Inr listed"
    by (simp add: good_client_def)
  have i: "(py_iter (py_get twice_policy ''key_aliases'' (PList [])) :: string exc + pyval list) =
      Inr ?aliases"
    by (simp add: py_get_def twice_policy_def)
  have want: "aliases_to_create ?aliases (key_details listed) = [PStr ''bbb'', PStr ''bbb'']"
    by (simp add: aliases_to_create_def listed_def)
  have ok: "list_all hashable ?aliases \<and>
      (\<forall>req c. \<exists>r. fst (create_key good_client req c) = Inr r)"
    by (simp add: good_client_def)
  from create_key_requests [OF R l i] ok
  have "fst ?R = Return RNone"
    and "fst ?R = Return RNone \<longrightarrow>
      filter is_create_key (calls_of (new_events ?w (snd ?R))) =
        map (\<lambda>alias. CreateKeyRequest \<lparr>key_alias = alias\<rparr>)
          (aliases_to_create ?aliases (key_details listed))"
    by blast+
  then have "fst ?R = Return RNone"
    and "filter is_create_key (calls_of (new_events ?w (snd ?R))) =
        [CreateKeyRequest \<lparr>key_alias = PStr ''bbb''\<rparr>, CreateKeyRequest \<lparr>key_alias = PStr ''bbb''\<rparr>]"
    by (simp_all add: want)
  with l0 i want show ?thesis
    by blast
qed

text \<open>
  C9. \<open>create-key\<close> never reads \<open>obs_url\<close>: two policy dictionaries that agree on every
  key but \<open>obs_url\<close> give the same run, that is the same outcome, the same calls in the
  same order and the same final world. (The other four actions read no policy data.)
\<close>

theorem obs_url_not_read:
  assumes "\<forall>k. k \<noteq> ''obs_url'' \<longrightarrow> d1 k = d2 k"
  shows "run_action act cl gen d1 a w = run_action act cl gen d2 a w"
proof (cases act)
  case (PerKey k)
  then show ?thesis by simp
next
  case CreateKey
  from assms have "d1 ''key_aliases'' = d2 ''key_aliases''" by simp
  then have "py_get d1 ''key_aliases'' (PList []) = py_get d2 ''key_aliases'' (PList [])"
    by (simp add: py_get_def)
  with CreateKey show ?thesis
    by (simp add: createKey_process_def)
qed

theorem obs_url_not_read_witness:
  "twice_policy ''obs_url'' = None \<and>
   twice_policy_obs ''obs_url'' = Some (PStr ''obs://bucket/keys'') \<and>
   run_action CreateKey good_client gen0 twice_policy_obs 0 (world_of plain_key) =
     run_action CreateKey good_client gen0 twice_policy 0 (world_of plain_key) \<and>
   fst (run_action CreateKey good_client gen0 twice_policy_obs 0 (world_of plain_key)) = Return RNone"
proof -
  have agree: "\<forall>k. k \<noteq> ''obs_url'' \<longrightarrow> twice_policy_obs k = twice_policy k"
    by (simp add: twice_policy_obs_def)
  have "twice_policy ''obs_url'' = None"
    and "twice_policy_obs ''obs_url'' = Some (PStr ''obs://bucket/keys'')"
    by (simp_all add: twice_policy_obs_def twice_policy_def)
  moreover note same = obs_url_not_read [OF agree, of CreateKey good_client gen0 0 "world_of plain_key"]
  moreover have "fst (run_action CreateKey good_client gen0 twice_policy 0 (world_of plain_key)) =
      Return RNone"
    by (simp add: run_create_twice)
  ultimately show ?thesis
    by (simp only: same)
qed

text \<open>
  C10. No action changes a resource dictionary: after a run of any of the five actions,
  whatever its outcome (a response, 0, \<open>None\<close> or an exception), every dictionary of
  the store holds what it held before.
\<close>

theorem resource_not_mutated:
  "store (snd (run_action act cl gen data a w)) = store w"
proof (cases act)
  case (PerKey k)
  obtain res w' where run: "perform_action k cl gen a w = (res, w')"
    by (cases "perform_action k cl gen a w")
  from perform_action_cases [OF run] have "w' = w \<or> w' = snd (issue_request k cl gen (store w a) w)"
    by (metis snd_conv)
  then have "store w' = store w"
    by (auto simp add: issue_request_store)
  with PerKey run show ?thesis by simp
next
  case CreateKey
  then show ?thesis
    by (simp add: createKey_process_unfold create_loop_store sdk_call_store split: sum.splits)
qed

theorem resource_not_mutated_witness:
  "store (snd (run_action (PerKey EnableKey) good_client gen0 Map.empty 0 (world_of default_key))) 0 =
     default_key \<and>
   fst (run_action (PerKey EnableKey) good_client gen0 Map.empty 0 (world_of default_key)) =
     Return (RResp ''enabled'') \<and>
   store (snd (run_action (PerKey RotationKey) good_client gen0 Map.empty 0 (world_of default_key))) 0 =
     default_key \<and>
   fst (run_action (PerKey RotationKey) good_client gen0 Map.empty 0 (world_of default_key)) =
     Return (RInt 0) \<and>
   store (snd (run_action CreateKey bad_client gen0 twice_policy 0 (world_of plain_key))) 0 =
     plain_key \<and>
   fst (run_action CreateKey bad_client gen0 twice_policy 0 (world_of plain_key)) =
     Raise (ClientError ''KMS.0005'')"
  using resource_not_mutated [of "PerKey EnableKey" good_client gen0 Map.empty 0 "world_of default_key"]
    resource_not_mutated [of "PerKey RotationKey" good_client gen0 Map.empty 0 "world_of default_key"]
    resource_not_mutated [of CreateKey bad_client gen0 twice_policy 0 "world_of plain_key"]
  by (simp add: run_enable_default run_rotation_default run_create_bad world_of_store)

end
